theory Spec2Isabelle
  imports Complex_Main
begin

section \<open>Numeric cells\<close>

text \<open>
  A cell of a pandas column of dtype float64. The model keeps the special values of IEEE
  arithmetic that the code relies on (a division by zero gives an infinity or NaN, it does
  not raise) and takes the finite values as exact reals: rounding, overflow and the sign of
  zero are not modelled (a zero divisor is taken as \<open>+0.0\<close>). Integer and boolean columns
  (\<open>.astype(int)\<close>) are cells with the values \<open>Fin 0\<close> and \<open>Fin 1\<close>.
\<close>

datatype cell = NaN | PInf | NInf | Fin real

fun cneg :: "cell \<Rightarrow> cell" where
  "cneg NaN = NaN"
| "cneg PInf = NInf"
| "cneg NInf = PInf"
| "cneg (Fin a) = Fin (- a)"

fun cadd :: "cell \<Rightarrow> cell \<Rightarrow> cell" where
  "cadd (Fin a) (Fin b) = Fin (a + b)"
| "cadd NaN y = NaN"
| "cadd x NaN = NaN"
| "cadd PInf NInf = NaN"
| "cadd NInf PInf = NaN"
| "cadd PInf y = PInf"
| "cadd x PInf = PInf"
| "cadd NInf y = NInf"
| "cadd x NInf = NInf"

definition csub :: "cell \<Rightarrow> cell \<Rightarrow> cell" where
  "csub x y = cadd x (cneg y)"

fun cmul :: "cell \<Rightarrow> cell \<Rightarrow> cell" where
  "cmul (Fin a) (Fin b) = Fin (a * b)"
| "cmul NaN y = NaN"
| "cmul x NaN = NaN"
| "cmul PInf (Fin b) = (if 0 < b then PInf else if b < 0 then NInf else NaN)"
| "cmul NInf (Fin b) = (if 0 < b then NInf else if b < 0 then PInf else NaN)"
| "cmul (Fin a) PInf = (if 0 < a then PInf else if a < 0 then NInf else NaN)"
| "cmul (Fin a) NInf = (if 0 < a then NInf else if a < 0 then PInf else NaN)"
| "cmul PInf PInf = PInf"
| "cmul NInf NInf = PInf"
| "cmul PInf NInf = NInf"
| "cmul NInf PInf = NInf"

fun cdiv :: "cell \<Rightarrow> cell \<Rightarrow> cell" where
  "cdiv (Fin a) (Fin b) =
     (if b \<noteq> 0 then Fin (a / b)
      else if 0 < a then PInf else if a < 0 then NInf else NaN)"
| "cdiv NaN y = NaN"
| "cdiv x NaN = NaN"
| "cdiv (Fin a) PInf = Fin 0"
| "cdiv (Fin a) NInf = Fin 0"
| "cdiv PInf (Fin b) = (if 0 \<le> b then PInf else NInf)"
| "cdiv NInf (Fin b) = (if 0 \<le> b then NInf else PInf)"
| "cdiv PInf PInf = NaN"
| "cdiv PInf NInf = NaN"
| "cdiv NInf PInf = NaN"
| "cdiv NInf NInf = NaN"

text \<open>Comparisons are those of IEEE: every comparison with NaN is false.\<close>

fun clt :: "cell \<Rightarrow> cell \<Rightarrow> bool" where
  "clt (Fin a) (Fin b) = (a < b)"
| "clt NaN y = False"
| "clt x NaN = False"
| "clt x NInf = False"
| "clt PInf y = False"
| "clt NInf y = True"
| "clt x PInf = True"

definition cgt :: "cell \<Rightarrow> cell \<Rightarrow> bool" where
  "cgt x y = clt y x"

definition cle :: "cell \<Rightarrow> cell \<Rightarrow> bool" where
  "cle x y = (x \<noteq> NaN \<and> y \<noteq> NaN \<and> \<not> clt y x)"

definition cge :: "cell \<Rightarrow> cell \<Rightarrow> bool" where
  "cge x y = cle y x"

definition as_int :: "bool \<Rightarrow> cell" where
  "as_int b = (if b then Fin 1 else Fin 0)"

fun cabs :: "cell \<Rightarrow> cell" where
  "cabs NaN = NaN"
| "cabs PInf = PInf"
| "cabs NInf = PInf"
| "cabs (Fin a) = Fin \<bar>a\<bar>"

fun csign :: "cell \<Rightarrow> cell" where
  "csign NaN = NaN"
| "csign PInf = Fin 1"
| "csign NInf = Fin (- 1)"
| "csign (Fin a) = Fin (sgn a)"

fun is_fin :: "cell \<Rightarrow> bool" where
  "is_fin (Fin a) = True"
| "is_fin c = False"

section \<open>Series operations of pandas\<close>

type_synonym series = "cell list"

text \<open>\<open>s.shift(n)\<close> for \<open>n \<ge> 0\<close> and \<open>s.shift(-n)\<close>: the length is kept, the hole is NaN.\<close>

definition shift :: "nat \<Rightarrow> series \<Rightarrow> series" where
  "shift n xs = take (length xs) (replicate n NaN @ xs)"

definition shift_back :: "nat \<Rightarrow> series \<Rightarrow> series" where
  "shift_back n xs = drop n xs @ replicate (min n (length xs)) NaN"

definition diff :: "series \<Rightarrow> series" where
  "diff xs = map2 csub xs (shift 1 xs)"

text \<open>\<open>s.where(cond, other)\<close>: keep the cell where the condition holds.\<close>

definition pd_where :: "(cell \<Rightarrow> bool) \<Rightarrow> cell \<Rightarrow> series \<Rightarrow> series" where
  "pd_where cond other xs = map (\<lambda>x. if cond x then x else other) xs"

definition fillna :: "cell \<Rightarrow> series \<Rightarrow> series" where
  "fillna v xs = map (\<lambda>x. if x = NaN then v else x) xs"

definition dropna :: "series \<Rightarrow> series" where
  "dropna xs = filter (\<lambda>x. x \<noteq> NaN) xs"

text \<open>
  \<open>s.rolling(window=p)\<close>: the window of bar \<open>i\<close> is the \<open>p\<close> cells ending at \<open>i\<close>. With
  the default \<open>min_periods = p\<close> the aggregate is NaN unless the window is complete and
  every cell in it is a finite number (pandas turns infinities into NaN before it
  aggregates).
\<close>

definition window :: "nat \<Rightarrow> 'a list \<Rightarrow> nat \<Rightarrow> 'a list" where
  "window p xs i = take p (drop (i + 1 - p) xs)"

fun finite_vals :: "series \<Rightarrow> real list option" where
  "finite_vals [] = Some []"
| "finite_vals (Fin a # xs) = (case finite_vals xs of None \<Rightarrow> None | Some vs \<Rightarrow> Some (a # vs))"
| "finite_vals (c # xs) = None"

definition rolling :: "nat \<Rightarrow> (real list \<Rightarrow> cell) \<Rightarrow> series \<Rightarrow> series" where
  "rolling p agg xs =
     map (\<lambda>i. if p = 0 \<or> i + 1 < p then NaN
              else (case finite_vals (window p xs i) of None \<Rightarrow> NaN | Some vs \<Rightarrow> agg vs))
         [0..<length xs]"

definition mean :: "real list \<Rightarrow> real" where
  "mean vs = sum_list vs / real (length vs)"

definition sum_sq_dev :: "real list \<Rightarrow> real" where
  "sum_sq_dev vs = sum_list (map (\<lambda>v. (v - mean vs)\<^sup>2) vs)"

definition agg_mean :: "real list \<Rightarrow> cell" where
  "agg_mean vs = Fin (mean vs)"

text \<open>The sample standard deviation (\<open>ddof = 1\<close>): NaN on fewer than two observations.\<close>

definition agg_std :: "real list \<Rightarrow> cell" where
  "agg_std vs = (if length vs < 2 then NaN else Fin (sqrt (sum_sq_dev vs / real (length vs - 1))))"

definition agg_min :: "real list \<Rightarrow> cell" where
  "agg_min vs = Fin (Min (set vs))"

definition agg_max :: "real list \<Rightarrow> cell" where
  "agg_max vs = Fin (Max (set vs))"

definition agg_mad :: "real list \<Rightarrow> cell" where
  "agg_mad vs = Fin (mean (map (\<lambda>v. \<bar>v - mean vs\<bar>) vs))"

text \<open>
  \<open>s.cumsum()\<close> skips NaN: the cell stays NaN and the running sum goes on without it.
\<close>

fun cumsum_from :: "cell \<Rightarrow> series \<Rightarrow> series" where
  "cumsum_from acc [] = []"
| "cumsum_from acc (x # xs) =
     (if x = NaN then NaN # cumsum_from acc xs
      else cadd acc x # cumsum_from (cadd acc x) xs)"

definition cumsum :: "series \<Rightarrow> series" where
  "cumsum xs = cumsum_from (Fin 0) xs"

text \<open>
  \<open>s.pct_change(periods=n)\<close> with the default \<open>fill_method='pad'\<close> of pandas 1.x and 2.x:
  NaN cells are filled forward first, then \<open>x / x.shift(n) - 1\<close>.
\<close>

fun ffill_from :: "cell \<Rightarrow> series \<Rightarrow> series" where
  "ffill_from prev [] = []"
| "ffill_from prev (x # xs) =
     (if x = NaN then prev # ffill_from prev xs else x # ffill_from x xs)"

definition ffill :: "series \<Rightarrow> series" where
  "ffill xs = ffill_from NaN xs"

definition pct_change :: "nat \<Rightarrow> series \<Rightarrow> series" where
  "pct_change n xs = (let ys = ffill xs in map2 (\<lambda>a b. csub (cdiv a b) (Fin 1)) ys (shift n ys))"

text \<open>
  \<open>s.ewm(span=p, adjust=False).mean()\<close>, the loop of pandas. \<open>weighted\<close> is the running
  average and \<open>old_wt\<close> its weight; a NaN cell repeats the average and lets its weight
  decay; the first observation seeds the average.
\<close>

fun ewm_loop :: "real \<Rightarrow> cell \<Rightarrow> real \<Rightarrow> series \<Rightarrow> series" where
  "ewm_loop alpha weighted old_wt [] = []"
| "ewm_loop alpha weighted old_wt (cur # rest) =
     (if weighted \<noteq> NaN then
        (let old_wt1 = old_wt * (1 - alpha) in
         if cur \<noteq> NaN then
           (let w = (if weighted \<noteq> cur
                     then cdiv (cadd (cmul (Fin old_wt1) weighted) (cmul (Fin alpha) cur))
                               (Fin (old_wt1 + alpha))
                     else weighted)
            in w # ewm_loop alpha w 1 rest)
         else weighted # ewm_loop alpha weighted old_wt1 rest)
      else if cur \<noteq> NaN then cur # ewm_loop alpha cur old_wt rest
      else weighted # ewm_loop alpha weighted old_wt rest)"

definition ewm_mean :: "nat \<Rightarrow> series \<Rightarrow> series" where
  "ewm_mean sp xs =
     (case xs of [] \<Rightarrow> [] | x # rest \<Rightarrow> x # ewm_loop (2 / (real sp + 1)) x 1 rest)"

text \<open>The row-wise maximum of \<open>DataFrame.max(axis=1)\<close>: NaN cells are skipped.\<close>

definition cmax :: "cell \<Rightarrow> cell \<Rightarrow> cell" where
  "cmax x y = (if x = NaN then y else if y = NaN then x else if clt x y then y else x)"

text \<open>The crossing flags: above now, and not above on the bar before.\<close>

definition cross_above :: "series \<Rightarrow> series \<Rightarrow> series" where
  "cross_above a b =
     map2 (\<lambda>(x, x1) (y, y1). as_int (cgt x y \<and> cle x1 y1)) (zip a (shift 1 a)) (zip b (shift 1 b))"

definition cross_below :: "series \<Rightarrow> series \<Rightarrow> series" where
  "cross_below a b =
     map2 (\<lambda>(x, x1) (y, y1). as_int (clt x y \<and> cge x1 y1)) (zip a (shift 1 a)) (zip b (shift 1 b))"

text \<open>\<open>str(n)\<close> of a natural number, for the column names \<open>f'SMA_{period}'\<close>.\<close>

fun show_nat :: "nat \<Rightarrow> string" where
  "show_nat n = (if n < 10 then [''0123456789'' ! n]
                 else show_nat (n div 10) @ [''0123456789'' ! (n mod 10)])"

section \<open>Data frames\<close>

text \<open>
  A DataFrame: the index (trading dates as day numbers) and the columns in their order.
  \<open>df[name]\<close> raises KeyError on a missing column; \<open>df[name] = s\<close> replaces the column
  where it stands or appends it.
\<close>

datatype error = KeyError string | ValueError

record frame =
  index :: "nat list"
  columns :: "(string \<times> series) list"

definition get_col :: "frame \<Rightarrow> string \<Rightarrow> error + series" where
  "get_col df name = (case map_of (columns df) name of None \<Rightarrow> Inl (KeyError name) | Some c \<Rightarrow> Inr c)"

fun assign :: "string \<Rightarrow> series \<Rightarrow> (string \<times> series) list \<Rightarrow> (string \<times> series) list" where
  "assign name c [] = [(name, c)]"
| "assign name c ((k, v) # kvs) = (if k = name then (k, c) # kvs else (k, v) # assign name c kvs)"

definition set_col :: "string \<Rightarrow> series \<Rightarrow> frame \<Rightarrow> frame" where
  "set_col name c df = df\<lparr>columns := assign name c (columns df)\<rparr>"

definition has_col :: "frame \<Rightarrow> string \<Rightarrow> bool" where
  "has_col df name = (map_of (columns df) name \<noteq> None)"

text \<open>Every column of a DataFrame has one cell for each entry of the index.\<close>

definition wf_frame :: "frame \<Rightarrow> bool" where
  "wf_frame df = (\<forall>c \<in> set (map snd (columns df)). length c = length (index df))"

section \<open>Indicator configuration\<close>

record config =
  sma_periods :: "int list"
  ema_periods :: "int list"
  rsi_period :: int
  macd_fast :: int
  macd_slow :: int
  macd_signal :: int
  bb_period :: int
  bb_std :: real
  stochastic_k :: int
  stochastic_d :: int

definition default_config :: config where
  "default_config = \<lparr>sma_periods = [5, 10, 20, 50, 200], ema_periods = [8, 12, 21, 26, 50],
     rsi_period = 14, macd_fast = 12, macd_slow = 26, macd_signal = 9, bb_period = 20,
     bb_std = 2, stochastic_k = 14, stochastic_d = 3\<rparr>"

section \<open>Relative Strength Index\<close>

text \<open>
  \<open>_calculate_rsi\<close>. \<open>delta.where(delta > 0, 0)\<close> puts 0 where the change is not a gain,
  also where it is NaN (the first bar). A negative window makes \<open>rolling\<close> raise ValueError.
\<close>

definition rsi_gain :: "nat \<Rightarrow> series \<Rightarrow> series" where
  "rsi_gain p close = rolling p agg_mean (pd_where (\<lambda>d. cgt d (Fin 0)) (Fin 0) (diff close))"

definition rsi_loss :: "nat \<Rightarrow> series \<Rightarrow> series" where
  "rsi_loss p close = rolling p agg_mean (map cneg (pd_where (\<lambda>d. clt d (Fin 0)) (Fin 0) (diff close)))"

text \<open>One bar: \<open>rs = gain / loss\<close> and \<open>100 - (100 / (1 + rs))\<close>.\<close>

definition rsi_cell :: "cell \<Rightarrow> cell \<Rightarrow> cell" where
  "rsi_cell g l = csub (Fin 100) (cdiv (Fin 100) (cadd (Fin 1) (cdiv g l)))"

definition rsi_series :: "nat \<Rightarrow> series \<Rightarrow> series" where
  "rsi_series p close = map2 rsi_cell (rsi_gain p close) (rsi_loss p close)"




definition no_infinity :: "series \<Rightarrow> bool" where
  "no_infinity xs = (\<forall>c \<in> set xs. c \<noteq> PInf \<and> c \<noteq> NInf)"

definition nonneg_or_nan :: "cell \<Rightarrow> bool" where
  "nonneg_or_nan c = (case c of NaN \<Rightarrow> True | Fin a \<Rightarrow> 0 \<le> a | _ \<Rightarrow> False)"

definition calculate_rsi :: "config \<Rightarrow> frame \<Rightarrow> error + frame" where
  "calculate_rsi cfg df =
     (case get_col df ''Close'' of Inl e \<Rightarrow> Inl e
      | Inr close \<Rightarrow>
          if rsi_period cfg < 0 then Inl ValueError
          else let rsi = rsi_series (nat (rsi_period cfg)) close;
                   df1 = set_col ''RSI'' rsi df;
                   df2 = set_col ''RSI_Overbought'' (map (\<lambda>v. as_int (cgt v (Fin 70))) rsi) df1;
                   df3 = set_col ''RSI_Oversold'' (map (\<lambda>v. as_int (clt v (Fin 30))) rsi) df2
               in Inr df3)"


section \<open>Moving averages\<close>

text \<open>
  \<open>_calculate_moving_averages\<close>: one column for each configured period. \<open>rolling\<close> raises
  ValueError on a negative window and \<open>ewm\<close> on a span below 1.
\<close>

fun sma_loop :: "int list \<Rightarrow> frame \<Rightarrow> error + frame" where
  "sma_loop [] df = Inr df"
| "sma_loop (period # ps) df =
     (case get_col df ''Close'' of Inl e \<Rightarrow> Inl e
      | Inr close \<Rightarrow>
          if period < 0 then Inl ValueError
          else sma_loop ps
                 (set_col (''SMA_'' @ show_nat (nat period)) (rolling (nat period) agg_mean close) df))"

fun ema_loop :: "int list \<Rightarrow> frame \<Rightarrow> error + frame" where
  "ema_loop [] df = Inr df"
| "ema_loop (period # ps) df =
     (case get_col df ''Close'' of Inl e \<Rightarrow> Inl e
      | Inr close \<Rightarrow>
          if period < 1 then Inl ValueError
          else ema_loop ps
                 (set_col (''EMA_'' @ show_nat (nat period)) (ewm_mean (nat period) close) df))"

definition crosses :: "frame \<Rightarrow> frame" where
  "crosses df =
     (case (map_of (columns df) ''SMA_50'', map_of (columns df) ''SMA_200'') of
        (Some s50, Some s200) \<Rightarrow>
          set_col ''Death_Cross'' (cross_below s50 s200)
            (set_col ''Golden_Cross'' (cross_above s50 s200) df)
      | _ \<Rightarrow> df)"

definition calculate_moving_averages :: "config \<Rightarrow> frame \<Rightarrow> error + frame" where
  "calculate_moving_averages cfg df =
     (case sma_loop (sma_periods cfg) df of Inl e \<Rightarrow> Inl e
      | Inr df1 \<Rightarrow>
          (case ema_loop (ema_periods cfg) df1 of Inl e \<Rightarrow> Inl e
           | Inr df2 \<Rightarrow> Inr (crosses df2)))"

section \<open>MACD\<close>

definition calculate_macd :: "config \<Rightarrow> frame \<Rightarrow> error + frame" where
  "calculate_macd cfg df =
     (case get_col df ''Close'' of Inl e \<Rightarrow> Inl e
      | Inr close \<Rightarrow>
          if macd_fast cfg < 1 \<or> macd_slow cfg < 1 \<or> macd_signal cfg < 1 then Inl ValueError
          else let macd = map2 csub (ewm_mean (nat (macd_fast cfg)) close)
                                    (ewm_mean (nat (macd_slow cfg)) close);
                   signal = ewm_mean (nat (macd_signal cfg)) macd;
                   df1 = set_col ''MACD'' macd df;
                   df2 = set_col ''MACD_Signal'' signal df1;
                   df3 = set_col ''MACD_Histogram'' (map2 csub macd signal) df2;
                   df4 = set_col ''MACD_Bullish_Cross'' (cross_above macd signal) df3;
                   df5 = set_col ''MACD_Bearish_Cross'' (cross_below macd signal) df4
               in Inr df5)"

section \<open>Bollinger Bands\<close>

definition bb_upper :: "real \<Rightarrow> series \<Rightarrow> series \<Rightarrow> series" where
  "bb_upper k sma std = map2 cadd sma (map (\<lambda>s. cmul s (Fin k)) std)"

definition bb_lower :: "real \<Rightarrow> series \<Rightarrow> series \<Rightarrow> series" where
  "bb_lower k sma std = map2 csub sma (map (\<lambda>s. cmul s (Fin k)) std)"

definition calculate_bollinger_bands :: "config \<Rightarrow> frame \<Rightarrow> error + frame" where
  "calculate_bollinger_bands cfg df =
     (case get_col df ''Close'' of Inl e \<Rightarrow> Inl e
      | Inr close \<Rightarrow>
          if bb_period cfg < 0 then Inl ValueError
          else let sma = rolling (nat (bb_period cfg)) agg_mean close;
                   std = rolling (nat (bb_period cfg)) agg_std close;
                   upper = bb_upper (bb_std cfg) sma std;
                   lower = bb_lower (bb_std cfg) sma std;
                   df1 = set_col ''BB_Upper'' upper df;
                   df2 = set_col ''BB_Lower'' lower df1;
                   df3 = set_col ''BB_Middle'' sma df2;
                   df4 = set_col ''BB_Width'' (map2 csub upper lower) df3;
                   df5 = set_col ''BB_Position''
                           (map2 cdiv (map2 csub close lower) (map2 csub upper lower)) df4;
                   df6 = set_col ''BB_Overbought'' (map2 (\<lambda>c u. as_int (cgt c u)) close upper) df5;
                   df7 = set_col ''BB_Oversold'' (map2 (\<lambda>c l. as_int (clt c l)) close lower) df6
               in Inr df7)"

section \<open>Stochastic oscillator\<close>

definition stoch_k_series :: "nat \<Rightarrow> series \<Rightarrow> series \<Rightarrow> series \<Rightarrow> series" where
  "stoch_k_series k low high close =
     (let low_min = rolling k agg_min low; high_max = rolling k agg_max high
      in map (cmul (Fin 100)) (map2 cdiv (map2 csub close low_min) (map2 csub high_max low_min)))"

definition calculate_stochastic :: "config \<Rightarrow> frame \<Rightarrow> error + frame" where
  "calculate_stochastic cfg df =
     (case get_col df ''Low'' of Inl e \<Rightarrow> Inl e
      | Inr low \<Rightarrow>
          if stochastic_k cfg < 0 then Inl ValueError
          else (case get_col df ''High'' of Inl e \<Rightarrow> Inl e
           | Inr high \<Rightarrow>
          (case get_col df ''Close'' of Inl e \<Rightarrow> Inl e
           | Inr close \<Rightarrow>
               let stoch_k = stoch_k_series (nat (stochastic_k cfg)) low high close;
                   df1 = set_col ''Stoch_K'' stoch_k df
               in if stochastic_d cfg < 0 then Inl ValueError
                  else let df2 = set_col ''Stoch_D'' (rolling (nat (stochastic_d cfg)) agg_mean stoch_k) df1;
                           df3 = set_col ''Stoch_Overbought'' (map (\<lambda>v. as_int (cgt v (Fin 80))) stoch_k) df2;
                           df4 = set_col ''Stoch_Oversold'' (map (\<lambda>v. as_int (clt v (Fin 20))) stoch_k) df3
                       in Inr df4)))"

text \<open>The condition of the specification on the input: every bar has Low \<open>\<le>\<close> Close \<open>\<le>\<close> High.\<close>

definition bars_bounded :: "series \<Rightarrow> series \<Rightarrow> series \<Rightarrow> bool" where
  "bars_bounded low close high =
     list_all (\<lambda>(l, c, h). cle l c \<and> cle c h) (zip low (zip close high))"

section \<open>Williams %R and CCI\<close>

definition calculate_williams_r :: "frame \<Rightarrow> error + frame" where
  "calculate_williams_r df =
     (case get_col df ''High'' of Inl e \<Rightarrow> Inl e
      | Inr high \<Rightarrow>
     (case get_col df ''Low'' of Inl e \<Rightarrow> Inl e
      | Inr low \<Rightarrow>
     (case get_col df ''Close'' of Inl e \<Rightarrow> Inl e
      | Inr close \<Rightarrow>
          let high_max = rolling 14 agg_max high; low_min = rolling 14 agg_min low
          in Inr (set_col ''Williams_R''
                    (map (cmul (Fin (- 100)))
                       (map2 cdiv (map2 csub high_max close) (map2 csub high_max low_min))) df))))"

definition typical_price :: "series \<Rightarrow> series \<Rightarrow> series \<Rightarrow> series" where
  "typical_price high low close = map (\<lambda>s. cdiv s (Fin 3)) (map2 cadd (map2 cadd high low) close)"

definition calculate_cci :: "frame \<Rightarrow> error + frame" where
  "calculate_cci df =
     (case get_col df ''High'' of Inl e \<Rightarrow> Inl e
      | Inr high \<Rightarrow>
     (case get_col df ''Low'' of Inl e \<Rightarrow> Inl e
      | Inr low \<Rightarrow>
     (case get_col df ''Close'' of Inl e \<Rightarrow> Inl e
      | Inr close \<Rightarrow>
          let tp = typical_price high low close;
              sma_tp = rolling 20 agg_mean tp;
              mad = rolling 20 agg_mad tp
          in Inr (set_col ''CCI''
                    (map2 cdiv (map2 csub tp sma_tp) (map (cmul (Fin (15 / 1000))) mad)) df))))"

section \<open>Volume indicators\<close>

definition obv_series :: "series \<Rightarrow> series \<Rightarrow> series" where
  "obv_series close volume = cumsum (fillna (Fin 0) (map2 cmul (map csign (diff close)) volume))"

definition calculate_volume_indicators :: "frame \<Rightarrow> error + frame" where
  "calculate_volume_indicators df =
     (case get_col df ''Close'' of Inl e \<Rightarrow> Inl e
      | Inr close \<Rightarrow>
     (case get_col df ''Volume'' of Inl e \<Rightarrow> Inl e
      | Inr volume \<Rightarrow>
          let df1 = set_col ''OBV'' (obv_series close volume) df;
              df2 = set_col ''Volume_ROC'' (map (\<lambda>v. cmul v (Fin 100)) (pct_change 10 volume)) df1;
              volume_ma = rolling 20 agg_mean volume;
              df3 = set_col ''Volume_MA'' volume_ma df2;
              df4 = set_col ''Volume_Ratio'' (map2 cdiv volume volume_ma) df3
          in Inr df4))"

section \<open>Average True Range and Keltner Channels\<close>

definition true_range :: "series \<Rightarrow> series \<Rightarrow> series \<Rightarrow> series" where
  "true_range high low close =
     (let high_low = map2 csub high low;
          high_close = map cabs (map2 csub high (shift 1 close));
          low_close = map cabs (map2 csub low (shift 1 close))
      in map2 cmax (map2 cmax high_low high_close) low_close)"

definition calculate_atr :: "frame \<Rightarrow> error + frame" where
  "calculate_atr df =
     (case get_col df ''High'' of Inl e \<Rightarrow> Inl e
      | Inr high \<Rightarrow>
     (case get_col df ''Low'' of Inl e \<Rightarrow> Inl e
      | Inr low \<Rightarrow>
     (case get_col df ''Close'' of Inl e \<Rightarrow> Inl e
      | Inr close \<Rightarrow>
          Inr (set_col ''ATR'' (rolling 14 agg_mean (true_range high low close)) df))))"

text \<open>
  \<open>_calculate_keltner_channels\<close> takes the ATR column when the frame has one, and computes
  it (which also stores it in the frame) when it has none.
\<close>

definition calculate_keltner_channels :: "frame \<Rightarrow> error + frame" where
  "calculate_keltner_channels df =
     (case get_col df ''Close'' of Inl e \<Rightarrow> Inl e
      | Inr close \<Rightarrow>
          (case (if has_col df ''ATR'' then Inr df else calculate_atr df) of Inl e \<Rightarrow> Inl e
           | Inr df0 \<Rightarrow>
          (case get_col df0 ''ATR'' of Inl e \<Rightarrow> Inl e
           | Inr atr \<Rightarrow>
               let ema = ewm_mean 20 close;
                   band = map (\<lambda>a. cmul a (Fin 2)) atr;
                   df1 = set_col ''KC_Upper'' (map2 cadd ema band) df0;
                   df2 = set_col ''KC_Lower'' (map2 csub ema band) df1;
                   df3 = set_col ''KC_Middle'' ema df2
               in Inr df3)))"

section \<open>Ichimoku and VWAP\<close>

definition midpoint :: "nat \<Rightarrow> series \<Rightarrow> series \<Rightarrow> series" where
  "midpoint p high low =
     map (\<lambda>s. cdiv s (Fin 2)) (map2 cadd (rolling p agg_max high) (rolling p agg_min low))"

definition calculate_ichimoku :: "frame \<Rightarrow> error + frame" where
  "calculate_ichimoku df =
     (case get_col df ''High'' of Inl e \<Rightarrow> Inl e
      | Inr high \<Rightarrow>
     (case get_col df ''Low'' of Inl e \<Rightarrow> Inl e
      | Inr low \<Rightarrow>
          let tenkan = midpoint 9 high low;
              kijun = midpoint 26 high low;
              df1 = set_col ''Ichimoku_Tenkan'' tenkan df;
              df2 = set_col ''Ichimoku_Kijun'' kijun df1;
              df3 = set_col ''Ichimoku_Senkou_A''
                      (shift 26 (map (\<lambda>s. cdiv s (Fin 2)) (map2 cadd tenkan kijun))) df2;
              df4 = set_col ''Ichimoku_Senkou_B'' (shift 26 (midpoint 52 high low)) df3
          in (case get_col df4 ''Close'' of Inl e \<Rightarrow> Inl e
              | Inr close \<Rightarrow> Inr (set_col ''Ichimoku_Chikou'' (shift_back 26 close) df4))))"

definition calculate_vwap :: "frame \<Rightarrow> error + frame" where
  "calculate_vwap df =
     (case get_col df ''High'' of Inl e \<Rightarrow> Inl e
      | Inr high \<Rightarrow>
     (case get_col df ''Low'' of Inl e \<Rightarrow> Inl e
      | Inr low \<Rightarrow>
     (case get_col df ''Close'' of Inl e \<Rightarrow> Inl e
      | Inr close \<Rightarrow>
     (case get_col df ''Volume'' of Inl e \<Rightarrow> Inl e
      | Inr volume \<Rightarrow>
          let cumulative_tpv = cumsum (map2 cmul (typical_price high low close) volume);
              cumulative_volume = cumsum volume
          in Inr (set_col ''VWAP'' (map2 cdiv cumulative_tpv cumulative_volume) df)))))"

section \<open>The indicator pipeline on the object store\<close>

text \<open>
  DataFrames are mutable objects. The store holds the objects, an address is a position in
  it, and a new object takes the next position. \<open>data.copy()\<close> allocates a copy; every
  \<open>_calculate_*\<close> step assigns columns to the object it is given and returns that same
  object. A step that raises leaves the exception as the result of the whole call; the
  half-built copy is then unreachable, and the store keeps it as the last completed step
  left it.
\<close>

type_synonym store = "frame list"

definition copy_frame :: "store \<Rightarrow> nat \<Rightarrow> store \<times> nat" where
  "copy_frame h a = (h @ [h ! a], length h)"

definition in_place :: "(frame \<Rightarrow> error + frame) \<Rightarrow> store \<times> (error + nat) \<Rightarrow> store \<times> (error + nat)" where
  "in_place step st =
     (case st of
        (h, Inl e) \<Rightarrow> (h, Inl e)
      | (h, Inr r) \<Rightarrow> (case step (h ! r) of Inl e \<Rightarrow> (h, Inl e) | Inr f \<Rightarrow> (h[r := f], Inr r)))"

definition calculate_all :: "config \<Rightarrow> store \<Rightarrow> nat \<Rightarrow> store \<times> (error + nat)" where
  "calculate_all cfg h data =
     (let (h0, df) = copy_frame h data
      in in_place calculate_vwap
        (in_place calculate_ichimoku
        (in_place calculate_keltner_channels
        (in_place calculate_atr
        (in_place calculate_volume_indicators
        (in_place calculate_cci
        (in_place calculate_williams_r
        (in_place (calculate_stochastic cfg)
        (in_place (calculate_bollinger_bands cfg)
        (in_place (calculate_macd cfg)
        (in_place (calculate_rsi cfg)
        (in_place (calculate_moving_averages cfg) (h0, Inr df)))))))))))))"

section \<open>Statistics of numpy and pandas\<close>

text \<open>
  \<open>Series.mean\<close>, \<open>Series.std\<close>, \<open>Series.var\<close>, \<open>Series.min\<close> skip NaN cells; an
  infinite cell makes the deviations NaN. \<open>ddof\<close> is 1 in pandas and 0 when the call comes
  through \<open>np.std\<close>.
\<close>

definition csum :: "series \<Rightarrow> cell" where
  "csum xs = fold (\<lambda>x acc. cadd acc x) xs (Fin 0)"

definition series_mean :: "series \<Rightarrow> cell" where
  "series_mean xs = (let ys = dropna xs in if ys = [] then NaN else cdiv (csum ys) (Fin (real (length ys))))"

definition series_var :: "nat \<Rightarrow> series \<Rightarrow> cell" where
  "series_var ddof xs =
     (let ys = dropna xs
      in if length ys \<le> ddof then NaN
         else (case finite_vals ys of None \<Rightarrow> NaN
               | Some vs \<Rightarrow> Fin (sum_sq_dev vs / real (length vs - ddof))))"

fun cell_sqrt :: "cell \<Rightarrow> cell" where
  "cell_sqrt (Fin a) = (if 0 \<le> a then Fin (sqrt a) else NaN)"
| "cell_sqrt PInf = PInf"
| "cell_sqrt c = NaN"

definition series_std :: "nat \<Rightarrow> series \<Rightarrow> cell" where
  "series_std ddof xs = cell_sqrt (series_var ddof xs)"

definition cmin :: "cell \<Rightarrow> cell \<Rightarrow> cell" where
  "cmin x y = (if x = NaN then y else if y = NaN then x else if clt y x then y else x)"

definition series_min :: "series \<Rightarrow> cell" where
  "series_min xs = fold (\<lambda>x acc. cmin acc x) xs NaN"

text \<open>\<open>s.cumprod()\<close> skips NaN as \<open>cumsum\<close> does.\<close>

fun cumprod_from :: "cell \<Rightarrow> series \<Rightarrow> series" where
  "cumprod_from acc [] = []"
| "cumprod_from acc (x # xs) =
     (if x = NaN then NaN # cumprod_from acc xs
      else cmul acc x # cumprod_from (cmul acc x) xs)"

definition cumprod :: "series \<Rightarrow> series" where
  "cumprod xs = cumprod_from (Fin 1) xs"

text \<open>
  \<open>s.expanding().max()\<close>: the largest finite cell so far (\<open>min_periods = 1\<close>; the window
  functions read an infinity as NaN), NaN while there is none.
\<close>

fun expanding_max_from :: "cell \<Rightarrow> series \<Rightarrow> series" where
  "expanding_max_from best [] = []"
| "expanding_max_from best (x # xs) =
     (let best' = (if is_fin x then cmax best x else best)
      in best' # expanding_max_from best' xs)"

definition expanding_max :: "series \<Rightarrow> series" where
  "expanding_max xs = expanding_max_from NaN xs"

text \<open>
  \<open>np.percentile(a, q)\<close> with linear interpolation: the sorted cells (NaN last), the
  position \<open>(n - 1) q / 100\<close>, and numpy's interpolation between the two neighbours.
\<close>

fun cell_before :: "cell \<Rightarrow> cell \<Rightarrow> bool" where
  "cell_before x NaN = True"
| "cell_before NaN y = False"
| "cell_before x y = (\<not> clt y x)"

fun insert_cell :: "cell \<Rightarrow> series \<Rightarrow> series" where
  "insert_cell x [] = [x]"
| "insert_cell x (y # ys) = (if cell_before x y then x # y # ys else y # insert_cell x ys)"

definition sort_cells :: "series \<Rightarrow> series" where
  "sort_cells xs = foldr insert_cell xs []"

definition lerp :: "cell \<Rightarrow> cell \<Rightarrow> real \<Rightarrow> cell" where
  "lerp a b t =
     (if 1 / 2 \<le> t then csub b (cmul (csub b a) (Fin (1 - t)))
      else cadd a (cmul (csub b a) (Fin t)))"

definition percentile :: "series \<Rightarrow> real \<Rightarrow> cell" where
  "percentile xs q =
     (if xs = [] \<or> NaN \<in> set xs then NaN
      else let a = sort_cells xs;
               vi = real (length xs - 1) * (q / 100);
               lo = nat \<lfloor>vi\<rfloor>;
               hi = min (lo + 1) (length xs - 1)
           in lerp (a ! lo) (a ! hi) (vi - real lo))"

section \<open>Risk metrics\<close>

record RiskMetrics =
  var_95 :: cell
  var_99 :: cell
  expected_shortfall :: cell
  max_drawdown :: cell
  sharpe_ratio :: cell
  sortino_ratio :: cell
  calmar_ratio :: cell
  beta :: cell
  alpha :: cell

text \<open>\<open>data['Close'].pct_change().dropna()\<close>\<close>

definition returns_of :: "series \<Rightarrow> series" where
  "returns_of close = dropna (pct_change 1 close)"

definition drawdown_series :: "series \<Rightarrow> series" where
  "drawdown_series returns =
     (let cumulative = cumprod (map (cadd (Fin 1)) returns);
          running_max = expanding_max cumulative
      in map2 cdiv (map2 csub cumulative running_max) running_max)"

definition calculate_risk_metrics :: "frame \<Rightarrow> error + RiskMetrics" where
  "calculate_risk_metrics data =
     (case get_col data ''Close'' of Inl e \<Rightarrow> Inl e
      | Inr close \<Rightarrow>
          let returns = returns_of close
          in if length returns < 30
             then Inr \<lparr>var_95 = Fin 0, var_99 = Fin 0, expected_shortfall = Fin 0, max_drawdown = Fin 0,
                       sharpe_ratio = Fin 0, sortino_ratio = Fin 0, calmar_ratio = Fin 0,
                       beta = Fin 0, alpha = Fin 0\<rparr>
             else let v95 = percentile returns 5;
                      v99 = percentile returns 1;
                      es = series_mean (filter (\<lambda>r. cle r v95) returns);
                      mdd = series_min (drawdown_series returns);
                      sharpe = (if series_std 1 returns \<noteq> Fin 0
                                then cmul (cdiv (series_mean returns) (series_std 1 returns)) (Fin (sqrt 252))
                                else Fin 0);
                      negative_returns = filter (\<lambda>r. clt r (Fin 0)) returns;
                      downside_deviation =
                        (if 0 < length negative_returns
                         then cell_sqrt (series_mean (map (\<lambda>r. cmul r r) negative_returns))
                         else Fin 0);
                      sortino = (if downside_deviation \<noteq> Fin 0
                                 then cmul (cdiv (series_mean returns) downside_deviation) (Fin (sqrt 252))
                                 else Fin 0);
                      calmar = (if mdd \<noteq> Fin 0
                                then cdiv (cmul (series_mean returns) (Fin 252)) (cabs mdd)
                                else Fin 0)
                  in Inr \<lparr>var_95 = v95, var_99 = v99, expected_shortfall = es, max_drawdown = mdd,
                          sharpe_ratio = sharpe, sortino_ratio = sortino, calmar_ratio = calmar,
                          beta = Fin 1, alpha = cmul (series_mean returns) (Fin 252)\<rparr>)"

text \<open>
  The words of the specification: the cumulative-return path is the running product of one
  plus each return, and it is monotonically non-decreasing.
\<close>

definition cumulative_path :: "series \<Rightarrow> series" where
  "cumulative_path close = cumprod (map (cadd (Fin 1)) (returns_of close))"

definition non_decreasing :: "series \<Rightarrow> bool" where
  "non_decreasing xs = sorted_wrt cle xs"

definition positive_prices :: "series \<Rightarrow> bool" where
  "positive_prices xs = list_all (\<lambda>c. is_fin c \<and> cgt c (Fin 0)) xs"

section \<open>Market regime\<close>













section \<open>Portfolio analysis\<close>

record PortfolioSnapshot =
  correlation_matrix :: "cell list list"
  pca_explained_variance :: series
  portfolio_volatility :: cell
  diversification_ratio :: cell

text \<open>
  \<open>ndarray.mean()\<close> does not skip NaN, and the mean of no cell at all is NaN. The cells
  above the diagonal, \<open>values[np.triu_indices_from(values, k=1)]\<close>, row by row.
\<close>

definition np_mean :: "series \<Rightarrow> cell" where
  "np_mean xs = cdiv (csum xs) (Fin (real (length xs)))"

definition upper_triangle :: "cell list list \<Rightarrow> series" where
  "upper_triangle m = concat (map (\<lambda>i. drop (Suc i) (m ! i)) [0..<length m])"

text \<open>
  \<open>_calculate_diversification_ratio\<close>. The division is numpy's: \<open>1 / 0.0\<close> is
  \<open>inf\<close> with a warning, not an exception.
\<close>

definition calculate_diversification_ratio :: "cell list list \<Rightarrow> cell" where
  "calculate_diversification_ratio m =
     (let n_assets = length m
      in if n_assets = 1 then Fin 1
         else let avg_corr = np_mean (upper_triangle m)
              in cdiv (Fin 1) (cmul avg_corr (Fin (sqrt (real n_assets)))))"

text \<open>
  \<open>DataFrame.corr()\<close>: for each pair of columns the Pearson correlation over the rows on
  which both cells are finite, clipped to \<open>[-1, 1]\<close>; NaN when there is no such row or a
  column does not vary.
\<close>

definition clip1 :: "real \<Rightarrow> real" where
  "clip1 v = (if 1 < v then 1 else if v < - 1 then - 1 else v)"

definition co_dev :: "real list \<Rightarrow> real list \<Rightarrow> real" where
  "co_dev xs ys = sum_list (map2 (\<lambda>x y. (x - mean xs) * (y - mean ys)) xs ys)"

definition pair_corr :: "series \<Rightarrow> series \<Rightarrow> cell" where
  "pair_corr a b =
     (let rows = filter (\<lambda>(x, y). is_fin x \<and> is_fin y) (zip a b)
      in case (finite_vals (map fst rows), finite_vals (map snd rows)) of
           (Some xs, Some ys) \<Rightarrow>
             if xs = [] then NaN
             else let divisor = sqrt (sum_sq_dev xs * sum_sq_dev ys)
                  in if divisor \<noteq> 0 then Fin (clip1 (co_dev xs ys / divisor)) else NaN
         | _ \<Rightarrow> NaN)"

definition frame_corr :: "series list \<Rightarrow> cell list list" where
  "frame_corr cols = map (\<lambda>a. map (\<lambda>b. pair_corr a b) cols) cols"

text \<open>
  \<open>pd.DataFrame(returns_data).dropna()\<close>: the series are aligned on their dates and the
  rows with a NaN cell are dropped, which leaves the dates on which every series has a
  cell (in the order of the dates, the indexes being sorted).
\<close>

definition frame_empty :: "frame \<Rightarrow> bool" where
  "frame_empty df = (index df = [] \<or> columns df = [])"

definition complete_dates :: "(nat \<times> cell) list list \<Rightarrow> nat list" where
  "complete_dates cols =
     (case cols of [] \<Rightarrow> []
      | c # cs \<Rightarrow> filter (\<lambda>t. list_all (\<lambda>s. list_ex (\<lambda>(t', v). t' = t \<and> v \<noteq> NaN) s) (c # cs)) (map fst c))"

definition select_dates :: "nat list \<Rightarrow> (nat \<times> cell) list \<Rightarrow> series" where
  "select_dates dates s = map snd (filter (\<lambda>(t, v). t \<in> set dates) s)"

fun portfolio_returns_data :: "(string \<times> frame) list \<Rightarrow> string list \<Rightarrow> error + (nat \<times> cell) list list" where
  "portfolio_returns_data data [] = Inr []"
| "portfolio_returns_data data (symbol # symbols) =
     (case map_of data symbol of
        None \<Rightarrow> portfolio_returns_data data symbols
      | Some df \<Rightarrow>
          if frame_empty df then portfolio_returns_data data symbols
          else (case get_col df ''Close'' of Inl e \<Rightarrow> Inl e
                | Inr close \<Rightarrow>
                    (case portfolio_returns_data data symbols of Inl e \<Rightarrow> Inl e
                     | Inr rest \<Rightarrow> Inr (zip (index df) (pct_change 1 close) # rest))))"

definition row_sums :: "real \<Rightarrow> series list \<Rightarrow> nat \<Rightarrow> series" where
  "row_sums w cols n_rows =
     map (\<lambda>i. csum (dropna (map (\<lambda>c. cmul (c ! i) (Fin w)) cols))) [0..<n_rows]"

text \<open>
  \<open>_analyze_portfolio\<close>. The scaling and the principal components are scikit-learn's:
  \<open>decompose\<close> stands for them, with the number of components and the aligned returns as
  arguments, and it may raise. \<open>returns_df * weights\<close> raises ValueError when a requested
  symbol has no data, the weights being one for each requested symbol.
\<close>

definition dropna_frame :: "(nat \<times> cell) list list \<Rightarrow> series list" where
  "dropna_frame returns_data = map (select_dates (complete_dates returns_data)) returns_data"

definition analyze_portfolio ::
    "(nat \<Rightarrow> series list \<Rightarrow> error + series) \<Rightarrow> (string \<times> frame) list \<Rightarrow> string list
      \<Rightarrow> error + PortfolioSnapshot option" where
  "analyze_portfolio decompose data symbols =
     (case portfolio_returns_data data symbols of Inl e \<Rightarrow> Inl e
      | Inr returns_data \<Rightarrow>
          if returns_data = [] then Inr None
          else let returns_df = dropna_frame returns_data;
                   corr = frame_corr returns_df
               in (case decompose (min 3 (length symbols)) returns_df of Inl e \<Rightarrow> Inl e
                   | Inr explained \<Rightarrow>
                       if length symbols \<noteq> length returns_df then Inl ValueError
                       else let portfolio_returns =
                                  row_sums (1 / real (length symbols)) returns_df
                                    (length (complete_dates returns_data))
                            in Inr (Some \<lparr>correlation_matrix = corr,
                                  pca_explained_variance = explained,
                                  portfolio_volatility =
                                    cmul (series_std 1 portfolio_returns) (Fin (sqrt 252)),
                                  diversification_ratio = calculate_diversification_ratio corr\<rparr>)))"

section \<open>Correlation with a benchmark\<close>










text \<open>
  Two runs are in step when each works on the last object of its store, the two objects
  are equal, and both runs have raised the same exception or neither has.
\<close>

definition on_copy :: "store \<Rightarrow> store \<times> (error + nat) \<Rightarrow> bool" where
  "on_copy h st = (length (fst st) = Suc (length h) \<and> (\<forall>a < length h. fst st ! a = h ! a) \<and>
      (\<forall>r. snd st = Inr r \<longrightarrow> r = length h))"

definition in_step :: "store \<Rightarrow> store \<Rightarrow> store \<times> (error + nat) \<Rightarrow> store \<times> (error + nat) \<Rightarrow> bool" where
  "in_step ha hb sa sb = (fst sa ! length ha = fst sb ! length hb \<and>
      (case snd sa of Inl e \<Rightarrow> snd sb = Inl e | Inr r \<Rightarrow> snd sb = Inr (length hb)))"

text \<open>
  What the pipeline needs to run without an exception: the five input columns, windows that
  are not negative and spans of at least 1.
\<close>

definition has_ohlcv :: "frame \<Rightarrow> bool" where
  "has_ohlcv df = list_all (has_col df) [''Open'', ''High'', ''Low'', ''Close'', ''Volume'']"

definition valid_config :: "config \<Rightarrow> bool" where
  "valid_config cfg = (list_all (\<lambda>p. 0 \<le> p) (sma_periods cfg) \<and> list_all (\<lambda>p. 1 \<le> p) (ema_periods cfg) \<and>
     0 \<le> rsi_period cfg \<and> 1 \<le> macd_fast cfg \<and> 1 \<le> macd_slow cfg \<and> 1 \<le> macd_signal cfg \<and>
     0 \<le> bb_period cfg \<and> 0 \<le> stochastic_k cfg \<and> 0 \<le> stochastic_d cfg)"

text \<open>A run that has raised nothing so far and still has the five input columns.\<close>

definition no_exception :: "nat \<Rightarrow> store \<times> (error + nat) \<Rightarrow> bool" where
  "no_exception r st = (snd st = Inr r \<and> r < length (fst st) \<and> has_ohlcv (fst st ! r))"

section \<open>Example inputs\<close>

text \<open>Three bars with an unchanged close, and four bars that rise once and then fall.\<close>

definition flat_frame :: frame where
  "flat_frame = \<lparr>index = [0, 1, 2], columns =
     [(''Open'', [Fin 5, Fin 5, Fin 5]), (''High'', [Fin 5, Fin 5, Fin 5]),
      (''Low'', [Fin 5, Fin 5, Fin 5]), (''Close'', [Fin 5, Fin 5, Fin 5]),
      (''Volume'', [Fin 10, Fin 10, Fin 10])]\<rparr>"

definition zigzag_frame :: frame where
  "zigzag_frame = \<lparr>index = [0, 1, 2, 3], columns =
     [(''Open'', [Fin 1, Fin 2, Fin 1, Fin 1]), (''High'', [Fin 2, Fin 3, Fin 2, Fin 1]),
      (''Low'', [Fin 1, Fin 1, Fin 1, Fin (1/2)]), (''Close'', [Fin 1, Fin 2, Fin 1, Fin (1/2)]),
      (''Volume'', [Fin 10, Fin 20, Fin 30, Fin 40])]\<rparr>"

text \<open>Three bars whose close rises by one a bar.\<close>

definition rising_frame :: frame where
  "rising_frame = \<lparr>index = [0, 1, 2], columns =
     [(''Open'', [Fin 1, Fin 2, Fin 3]), (''High'', [Fin 2, Fin 3, Fin 4]),
      (''Low'', [Fin 1, Fin 1, Fin 2]), (''Close'', [Fin 1, Fin 2, Fin 3]),
      (''Volume'', [Fin 10, Fin 20, Fin 30])]\<rparr>"

text \<open>Three bars whose close halves each bar, and 30 flat bars followed by a fall to half.\<close>

definition falling_frame :: frame where
  "falling_frame = \<lparr>index = [0, 1, 2], columns =
     [(''Open'', [Fin 4, Fin 2, Fin 1]), (''High'', [Fin 4, Fin 2, Fin 1]),
      (''Low'', [Fin 4, Fin 2, Fin 1]), (''Close'', [Fin 4, Fin 2, Fin 1]),
      (''Volume'', [Fin 10, Fin 10, Fin 10])]\<rparr>"

definition dip_frame :: frame where
  "dip_frame = \<lparr>index = [0..<31], columns =
     [(''Open'', replicate 31 (Fin 100)), (''High'', replicate 31 (Fin 100)),
      (''Low'', replicate 30 (Fin 100) @ [Fin 50]), (''Close'', replicate 30 (Fin 100) @ [Fin 50]),
      (''Volume'', replicate 31 (Fin 1000))]\<rparr>"

text \<open>
  Assets as frames of closes. Over five days the returns of \<open>asset_a\<close> are
  1, -1/2, 1, -1/2, those of \<open>asset_b\<close> 1, 1, -1/2, -1/2 (uncorrelated with the first)
  and those of \<open>asset_c\<close> -1/2, 1, -1/2, 1 (the mirror image of the first).
\<close>

definition priced :: "real list \<Rightarrow> frame" where
  "priced closes = \<lparr>index = [0..<length closes], columns =
     [(''Open'', map Fin closes), (''High'', map Fin closes), (''Low'', map Fin closes),
      (''Close'', map Fin closes), (''Volume'', replicate (length closes) (Fin 10))]\<rparr>"

definition asset_a :: frame where
  "asset_a = priced [1, 2, 1, 2, 1]"

definition asset_b :: frame where
  "asset_b = priced [1, 2, 4, 2, 1]"





section \<open>Frames and series: basic facts\<close>

lemma map_of_assign: "map_of (assign name c kvs) = (map_of kvs)(name \<mapsto> c)"
  by (induction kvs) (auto simp: fun_eq_iff)

lemma get_set_col_same: "get_col (set_col name c df) name = Inr c"
  by (simp add: get_col_def set_col_def map_of_assign)

lemma get_set_col_other: "name' \<noteq> name \<Longrightarrow> get_col (set_col name c df) name' = get_col df name'"
  by (simp add: get_col_def set_col_def map_of_assign)

lemma length_shift: "length (shift n xs) = length xs"
  by (simp add: shift_def)

lemma length_diff: "length (diff xs) = length xs"
  by (simp add: diff_def length_shift)

lemma length_rolling: "length (rolling p agg xs) = length xs"
  by (simp add: rolling_def)

lemma nth_rolling:
  "i < length xs \<Longrightarrow> rolling p agg xs ! i =
     (if p = 0 \<or> i + 1 < p then NaN
      else (case finite_vals (window p xs i) of None \<Rightarrow> NaN | Some vs \<Rightarrow> agg vs))"
  by (simp add: rolling_def)

lemma finite_vals_Some: "finite_vals xs = Some vs \<Longrightarrow> xs = map Fin vs"
proof (induction xs arbitrary: vs)
  case Nil
  then show ?case by simp
next
  case (Cons x xs)
  then show ?case by (cases x) (auto split: option.splits)
qed

lemma finite_vals_map_Fin: "finite_vals (map Fin vs) = Some vs"
  by (induction vs) auto

lemma finite_vals_None: "finite_vals xs = None \<longleftrightarrow> (\<exists>x \<in> set xs. \<not> is_fin x)"
proof (induction xs)
  case Nil
  then show ?case by simp
next
  case (Cons x xs)
  then show ?case by (cases x) (auto split: option.splits)
qed

lemma length_window: "0 < p \<Longrightarrow> p \<le> i + 1 \<Longrightarrow> i < length xs \<Longrightarrow> length (window p xs i) = p"
  by (auto simp: window_def)






section \<open>RSI: range and saturation\<close>





lemma csub_no_infinity: "x \<noteq> PInf \<Longrightarrow> x \<noteq> NInf \<Longrightarrow> y \<noteq> PInf \<Longrightarrow> y \<noteq> NInf \<Longrightarrow>
   csub x y \<noteq> PInf \<and> csub x y \<noteq> NInf"
  by (cases x; cases y) (auto simp: csub_def)

lemma no_infinity_shift: "no_infinity xs \<Longrightarrow> no_infinity (shift n xs)"
  unfolding no_infinity_def shift_def by (auto dest!: in_set_takeD)

lemma no_infinity_diff: "no_infinity xs \<Longrightarrow> no_infinity (diff xs)"
proof -
  assume a: "no_infinity xs"
  then have b: "no_infinity (shift 1 xs)" by (rule no_infinity_shift)
  show ?thesis
    unfolding no_infinity_def diff_def
  proof
    fix c assume "c \<in> set (map2 csub xs (shift 1 xs))"
    then obtain x y where "c = csub x y" "x \<in> set xs" "y \<in> set (shift 1 xs)"
      by (auto dest: set_zip_leftD set_zip_rightD)
    with a b show "c \<noteq> PInf \<and> c \<noteq> NInf"
      using csub_no_infinity by (auto simp: no_infinity_def)
  qed
qed
















section \<open>Bollinger Bands: the order of the bands\<close>

lemma rolling_std_nonneg:
  assumes "i < length xs"
  shows "nonneg_or_nan (rolling p agg_std xs ! i)"
  using assms
  by (auto simp: nth_rolling nonneg_or_nan_def agg_std_def sum_sq_dev_def
           intro!: sum_list_nonneg divide_nonneg_nonneg split: option.splits)

lemma band_order:
  assumes "nonneg_or_nan s" "0 \<le> k"
    and "cadd m (cmul s (Fin k)) \<noteq> NaN" "m \<noteq> NaN" "csub m (cmul s (Fin k)) \<noteq> NaN"
  shows "cge (cadd m (cmul s (Fin k))) m \<and> cge m (csub m (cmul s (Fin k)))"
  using assms by (cases s; cases m) (auto simp: nonneg_or_nan_def cge_def cle_def csub_def mult_less_0_iff)

lemma calculate_bollinger_bands_cols:
  assumes "calculate_bollinger_bands cfg df = Inr df'"
  shows "\<exists>close. get_col df ''Close'' = Inr close \<and>
           get_col df' ''BB_Upper'' = Inr (bb_upper (bb_std cfg) (rolling (nat (bb_period cfg)) agg_mean close)
                                             (rolling (nat (bb_period cfg)) agg_std close)) \<and>
           get_col df' ''BB_Middle'' = Inr (rolling (nat (bb_period cfg)) agg_mean close) \<and>
           get_col df' ''BB_Lower'' = Inr (bb_lower (bb_std cfg) (rolling (nat (bb_period cfg)) agg_mean close)
                                             (rolling (nat (bb_period cfg)) agg_std close))"
  using assms
  by (auto simp: calculate_bollinger_bands_def Let_def get_set_col_same get_set_col_other
           split: sum.splits if_splits)

text \<open>
  Claim C7. Whenever \<open>_calculate_bollinger_bands\<close> returns (it raises only on a missing Close
  column or a negative window) and \<open>bb_std \<ge> 0\<close>, every bar on which the three bands are all
  defined (not NaN) has \<open>BB_Upper \<ge> BB_Middle \<ge> BB_Lower\<close>.
\<close>

theorem bollinger_bands_ordered:
  assumes "calculate_bollinger_bands cfg df = Inr df'" and "0 \<le> bb_std cfg"
    and "get_col df' ''BB_Upper'' = Inr upper" and "get_col df' ''BB_Middle'' = Inr middle"
    and "get_col df' ''BB_Lower'' = Inr lower"
    and "i < length middle" and "upper ! i \<noteq> NaN" and "middle ! i \<noteq> NaN" and "lower ! i \<noteq> NaN"
  shows "cge (upper ! i) (middle ! i) \<and> cge (middle ! i) (lower ! i)"
proof -
  let ?p = "nat (bb_period cfg)"
  from calculate_bollinger_bands_cols [OF assms(1)] assms(3,4,5) obtain close where
    m: "middle = rolling ?p agg_mean close" and
    u: "upper = bb_upper (bb_std cfg) middle (rolling ?p agg_std close)" and
    l: "lower = bb_lower (bb_std cfg) middle (rolling ?p agg_std close)" by auto
  from m assms(6) have i: "i < length close" by (simp add: length_rolling)
  let ?s = "rolling ?p agg_std close ! i"
  from i m have ui: "upper ! i = cadd (middle ! i) (cmul ?s (Fin (bb_std cfg)))"
    and li: "lower ! i = csub (middle ! i) (cmul ?s (Fin (bb_std cfg)))"
    by (simp_all add: u l bb_upper_def bb_lower_def length_rolling)
  from band_order [OF rolling_std_nonneg [OF i] assms(2), of "middle ! i" ?p] assms(7,8,9)
  show ?thesis by (simp add: ui li)
qed

lemma rising_std: "rolling 3 agg_std [Fin 1, Fin 2, Fin 3] = [NaN, NaN, Fin 1]"
  by (simp add: rolling_def window_def agg_std_def sum_sq_dev_def mean_def upt_rec power2_eq_square)

lemma rising_mean: "rolling 3 agg_mean [Fin 1, Fin 2, Fin 3] = [NaN, NaN, Fin 2]"
  by code_simp

theorem bollinger_bands_ordered_witness:
  "calculate_bollinger_bands (default_config\<lparr>bb_period := 3\<rparr>) rising_frame =
     Inr (set_col ''BB_Oversold'' [Fin 0, Fin 0, Fin 0]
         (set_col ''BB_Overbought'' [Fin 0, Fin 0, Fin 0]
         (set_col ''BB_Position'' [NaN, NaN, Fin (3/4)]
         (set_col ''BB_Width'' [NaN, NaN, Fin 4]
         (set_col ''BB_Middle'' [NaN, NaN, Fin 2]
         (set_col ''BB_Lower'' [NaN, NaN, Fin 0]
         (set_col ''BB_Upper'' [NaN, NaN, Fin 4] rising_frame))))))) \<and>
   cge (Fin 4) (Fin 2) \<and> cge (Fin 2) (Fin 0)"
proof -
  let ?cfg = "default_config\<lparr>bb_period := 3\<rparr>"
  let ?out = "set_col ''BB_Oversold'' [Fin 0, Fin 0, Fin 0]
         (set_col ''BB_Overbought'' [Fin 0, Fin 0, Fin 0]
         (set_col ''BB_Position'' [NaN, NaN, Fin (3/4)]
         (set_col ''BB_Width'' [NaN, NaN, Fin 4]
         (set_col ''BB_Middle'' [NaN, NaN, Fin 2]
         (set_col ''BB_Lower'' [NaN, NaN, Fin 0]
         (set_col ''BB_Upper'' [NaN, NaN, Fin 4] rising_frame))))))"
  have c: "get_col rising_frame ''Close'' = Inr [Fin 1, Fin 2, Fin 3]"
    by (simp add: get_col_def rising_frame_def)
  have run: "calculate_bollinger_bands ?cfg rising_frame = Inr ?out"
    by (simp add: calculate_bollinger_bands_def c default_config_def rising_std rising_mean
          bb_upper_def bb_lower_def csub_def as_int_def cgt_def Let_def)
  have u: "get_col ?out ''BB_Upper'' = Inr [NaN, NaN, Fin 4]"
    and m: "get_col ?out ''BB_Middle'' = Inr [NaN, NaN, Fin 2]"
    and l: "get_col ?out ''BB_Lower'' = Inr [NaN, NaN, Fin 0]"
    by (simp_all add: get_set_col_same get_set_col_other)
  have k: "0 \<le> bb_std ?cfg" by (simp add: default_config_def)
  from bollinger_bands_ordered [OF run k u m l, of 2] run show ?thesis by simp
qed

section \<open>Stochastic oscillator: the range of %K\<close>

lemma nth_in_window:
  assumes "0 < p" "p \<le> i + 1" "i < length xs"
  shows "xs ! i \<in> set (window p xs i)"
proof -
  have "window p xs i ! (p - 1) = xs ! i"
    using assms by (simp add: window_def)
  moreover have "p - 1 < length (window p xs i)"
    using assms by (simp add: length_window)
  ultimately show ?thesis by (metis nth_mem)
qed

lemma rolling_min_le:
  assumes "i < length xs" "rolling p agg_min xs ! i \<noteq> NaN"
  shows "\<exists>mn a. rolling p agg_min xs ! i = Fin mn \<and> xs ! i = Fin a \<and> mn \<le> a"
proof -
  from assms have p: "0 < p" "p \<le> i + 1" by (auto simp: nth_rolling split: if_splits)
  from assms p obtain vs where vs: "finite_vals (window p xs i) = Some vs"
    "rolling p agg_min xs ! i = Fin (Min (set vs))"
    by (auto simp: nth_rolling agg_min_def split: option.splits)
  from vs(1) have w: "window p xs i = map Fin vs" by (rule finite_vals_Some)
  with nth_in_window [OF p assms(1)] obtain a where a: "xs ! i = Fin a" "a \<in> set vs" by auto
  then have "Min (set vs) \<le> a" by simp
  with vs(2) a(1) show ?thesis by blast
qed

lemma rolling_max_ge:
  assumes "i < length xs" "rolling p agg_max xs ! i \<noteq> NaN"
  shows "\<exists>mx a. rolling p agg_max xs ! i = Fin mx \<and> xs ! i = Fin a \<and> a \<le> mx"
proof -
  from assms have p: "0 < p" "p \<le> i + 1" by (auto simp: nth_rolling split: if_splits)
  from assms p obtain vs where vs: "finite_vals (window p xs i) = Some vs"
    "rolling p agg_max xs ! i = Fin (Max (set vs))"
    by (auto simp: nth_rolling agg_max_def split: option.splits)
  from vs(1) have w: "window p xs i = map Fin vs" by (rule finite_vals_Some)
  with nth_in_window [OF p assms(1)] obtain a where a: "xs ! i = Fin a" "a \<in> set vs" by auto
  then have "a \<le> Max (set vs)" by simp
  with vs(2) a(1) show ?thesis by blast
qed

text \<open>One bar of %K from the close, the rolling low and the rolling high.\<close>

lemma stoch_cell_range:
  assumes "mn \<le> a" "cle (Fin a) c" "cle c (Fin b)" "b \<le> mx"
    and "cmul (Fin 100) (cdiv (csub c (Fin mn)) (csub (Fin mx) (Fin mn))) \<noteq> NaN"
  shows "\<exists>v. cmul (Fin 100) (cdiv (csub c (Fin mn)) (csub (Fin mx) (Fin mn))) = Fin v \<and> 0 \<le> v \<and> v \<le> 100"
proof -
  from assms(2,3) obtain x where x: "c = Fin x" "a \<le> x" "x \<le> b"
    by (cases c) (auto simp: cle_def)
  show ?thesis
  proof (cases "mx - mn = 0")
    case True
    with x assms(1,4) have "x - mn = 0" by simp
    with True assms(5) x(1) show ?thesis by (simp add: csub_def)
  next
    case False
    with x assms(1,4) have pos: "0 < mx - mn" "0 \<le> x - mn" "x - mn \<le> mx - mn" by simp_all
    define r where "r = (x - mn) / (mx - mn)"
    from pos have "0 \<le> r" "r \<le> 1" by (simp_all add: r_def)
    then have "0 \<le> 100 * r" "100 * r \<le> 100" by simp_all
    moreover from False x(1) have "cmul (Fin 100) (cdiv (csub c (Fin mn)) (csub (Fin mx) (Fin mn))) =
        Fin (100 * r)" unfolding r_def by (simp add: csub_def)
    ultimately show ?thesis by blast
  qed
qed

lemma nth_stoch_k_series:
  assumes "i < length close" "length low = length close" "length high = length close"
  shows "stoch_k_series k low high close ! i =
     cmul (Fin 100) (cdiv (csub (close ! i) (rolling k agg_min low ! i))
                          (csub (rolling k agg_max high ! i) (rolling k agg_min low ! i)))"
  using assms by (simp add: stoch_k_series_def Let_def length_rolling)

lemma cell_ops_NaN [simp]:
  "csub x NaN = NaN" "csub NaN x = NaN" "cdiv x NaN = NaN" "cdiv NaN x = NaN"
  "cmul x NaN = NaN" "cmul NaN x = NaN" "cadd x NaN = NaN" "cadd NaN x = NaN"
  by (cases x; simp add: csub_def)+

lemma stoch_k_range:
  assumes "i < length close" "length low = length close" "length high = length close"
    and "cle (low ! i) (close ! i)" "cle (close ! i) (high ! i)"
    and "stoch_k_series k low high close ! i \<noteq> NaN"
  shows "\<exists>v. stoch_k_series k low high close ! i = Fin v \<and> 0 \<le> v \<and> v \<le> 100"
proof -
  let ?lo = "rolling k agg_min low ! i" and ?hi = "rolling k agg_max high ! i"
  note nth = nth_stoch_k_series [OF assms(1,2,3), of k]
  from assms(6) have "?lo \<noteq> NaN" "?hi \<noteq> NaN" unfolding nth by auto
  with rolling_min_le [of i low k] rolling_max_ge [of i high k] assms(1,2,3)
  obtain mn a mx b where "?lo = Fin mn" "low ! i = Fin a" "mn \<le> a"
    "?hi = Fin mx" "high ! i = Fin b" "b \<le> mx" by force
  with stoch_cell_range [of mn a "close ! i" b mx] assms(4,5,6) show ?thesis
    unfolding nth by simp
qed

lemma wf_frame_length:
  "wf_frame df \<Longrightarrow> get_col df name = Inr c \<Longrightarrow> length c = length (index df)"
  by (auto simp: wf_frame_def get_col_def split: option.splits dest!: map_of_SomeD)

lemma bars_bounded_nth:
  assumes "bars_bounded low close high" "i < length close" "length low = length close"
    "length high = length close"
  shows "cle (low ! i) (close ! i) \<and> cle (close ! i) (high ! i)"
proof -
  from assms(2,3,4) have "i < length (zip low (zip close high))"
    "zip low (zip close high) ! i = (low ! i, close ! i, high ! i)" by simp_all
  with assms(1) show ?thesis
    unfolding bars_bounded_def list_all_length by (metis (mono_tags, lifting) case_prod_conv)
qed

lemma length_stoch_k_series:
  "length low = length close \<Longrightarrow> length high = length close \<Longrightarrow>
   length (stoch_k_series k low high close) = length close"
  by (simp add: stoch_k_series_def Let_def length_rolling)

lemma calculate_stochastic_col:
  assumes "calculate_stochastic cfg df = Inr df'"
  shows "\<exists>low high close. get_col df ''Low'' = Inr low \<and> get_col df ''High'' = Inr high \<and>
           get_col df ''Close'' = Inr close \<and>
           get_col df' ''Stoch_K'' = Inr (stoch_k_series (nat (stochastic_k cfg)) low high close)"
  using assms
  by (auto simp: calculate_stochastic_def Let_def get_set_col_same get_set_col_other
           split: sum.splits if_splits)

text \<open>
  Claim C9. On a frame in which every bar has Low \<open>\<le>\<close> Close \<open>\<le>\<close> High, every defined
  (non-NaN) cell of the Stoch_K column that \<open>_calculate_stochastic\<close> returns is a number in
  \<open>[0, 100]\<close>. (A cell is NaN when the window is incomplete, and also when the rolling high
  equals the rolling low, which gives \<open>0 / 0\<close>.)
\<close>

theorem stochastic_k_range:
  assumes "calculate_stochastic cfg df = Inr df'" and "wf_frame df"
    and "get_col df ''Low'' = Inr low" and "get_col df ''High'' = Inr high"
    and "get_col df ''Close'' = Inr close" and "bars_bounded low close high"
    and "get_col df' ''Stoch_K'' = Inr stoch_k" and "i < length stoch_k" and "stoch_k ! i \<noteq> NaN"
  shows "\<exists>v. stoch_k ! i = Fin v \<and> 0 \<le> v \<and> v \<le> 100"
proof -
  from assms(2,3,4,5) have len: "length low = length close" "length high = length close"
    by (simp_all add: wf_frame_length)
  from calculate_stochastic_col [OF assms(1)] assms(3,4,5,7)
  have k: "stoch_k = stoch_k_series (nat (stochastic_k cfg)) low high close" by auto
  with assms(8) len have i: "i < length close" by (simp add: length_stoch_k_series)
  from bars_bounded_nth [OF assms(6) i len]
  have "cle (low ! i) (close ! i)" "cle (close ! i) (high ! i)" by simp_all
  from stoch_k_range [OF i len this] assms(9) show ?thesis unfolding k by blast
qed

theorem stochastic_k_range_witness:
  "calculate_stochastic (default_config\<lparr>stochastic_k := 2, stochastic_d := 2\<rparr>) rising_frame =
     Inr \<lparr>index = [0, 1, 2], columns =
       [(''Open'', [Fin 1, Fin 2, Fin 3]), (''High'', [Fin 2, Fin 3, Fin 4]),
        (''Low'', [Fin 1, Fin 1, Fin 2]), (''Close'', [Fin 1, Fin 2, Fin 3]),
        (''Volume'', [Fin 10, Fin 20, Fin 30]), (''Stoch_K'', [NaN, Fin 50, Fin (200 / 3)]),
        (''Stoch_D'', [NaN, NaN, Fin (175 / 3)]), (''Stoch_Overbought'', [Fin 0, Fin 0, Fin 0]),
        (''Stoch_Oversold'', [Fin 0, Fin 0, Fin 0])]\<rparr> \<and>
   wf_frame rising_frame \<and> bars_bounded [Fin 1, Fin 1, Fin 2] [Fin 1, Fin 2, Fin 3] [Fin 2, Fin 3, Fin 4] \<and>
   (\<exists>v. [NaN, Fin 50, Fin (200 / 3)] ! 2 = Fin v \<and> 0 \<le> v \<and> v \<le> 100)"
proof -
  let ?out = "\<lparr>index = [0, 1, 2], columns =
       [(''Open'', [Fin 1, Fin 2, Fin 3]), (''High'', [Fin 2, Fin 3, Fin 4]),
        (''Low'', [Fin 1, Fin 1, Fin 2]), (''Close'', [Fin 1, Fin 2, Fin 3]),
        (''Volume'', [Fin 10, Fin 20, Fin 30]), (''Stoch_K'', [NaN, Fin 50, Fin (200 / 3)]),
        (''Stoch_D'', [NaN, NaN, Fin (175 / 3)]), (''Stoch_Overbought'', [Fin 0, Fin 0, Fin 0]),
        (''Stoch_Oversold'', [Fin 0, Fin 0, Fin 0])]\<rparr>"
  have run: "calculate_stochastic (default_config\<lparr>stochastic_k := 2, stochastic_d := 2\<rparr>) rising_frame = Inr ?out"
    by code_simp
  have wf: "wf_frame rising_frame" by (simp add: wf_frame_def rising_frame_def)
  have l: "get_col rising_frame ''Low'' = Inr [Fin 1, Fin 1, Fin 2]"
    and h: "get_col rising_frame ''High'' = Inr [Fin 2, Fin 3, Fin 4]"
    and c: "get_col rising_frame ''Close'' = Inr [Fin 1, Fin 2, Fin 3]"
    by (simp_all add: get_col_def rising_frame_def)
  have b: "bars_bounded [Fin 1, Fin 1, Fin 2] [Fin 1, Fin 2, Fin 3] [Fin 2, Fin 3, Fin 4]"
    by (simp add: bars_bounded_def cle_def)
  have k: "get_col ?out ''Stoch_K'' = Inr [NaN, Fin 50, Fin (200 / 3)]"
    by (simp add: get_col_def)
  from stochastic_k_range [OF run wf l h c b k, of 2] run wf b show ?thesis by simp
qed

section \<open>On-Balance Volume\<close>

lemma length_cumsum_from: "length (cumsum_from acc xs) = length xs"
  by (induction xs arbitrary: acc) auto

lemma cumsum_from_finite:
  "is_fin acc \<Longrightarrow> list_all is_fin xs \<Longrightarrow> list_all is_fin (cumsum_from acc xs)"
proof (induction xs arbitrary: acc)
  case Nil
  then show ?case by simp
next
  case (Cons x xs)
  from Cons.prems obtain a b where "acc = Fin a" "x = Fin b"
    by (cases acc; cases x) auto
  with Cons show ?case by simp
qed

lemma diff_Cons_hd: "diff (x # xs) ! 0 = NaN"
  by (simp add: diff_def shift_def)

lemma signed_volume_cell:
  assumes "d \<noteq> PInf" "d \<noteq> NInf" "is_fin v"
  shows "is_fin (if cmul (csign d) v = NaN then Fin 0 else cmul (csign d) v)"
  using assms by (cases d; cases v) auto

lemma signed_volume_finite:
  assumes "no_infinity ds" "list_all is_fin vs"
  shows "list_all is_fin (fillna (Fin 0) (map2 cmul (map csign ds) vs))"
  using assms
proof (induction ds arbitrary: vs)
  case Nil
  then show ?case by (simp add: fillna_def)
next
  case (Cons d ds)
  show ?case
  proof (cases vs)
    case Nil
    then show ?thesis by (simp add: fillna_def)
  next
    case (Cons v vs')
    with Cons.prems have "no_infinity ds" "list_all is_fin vs'" "d \<noteq> PInf" "d \<noteq> NInf" "is_fin v"
      by (simp_all add: no_infinity_def)
    with Cons.IH [of vs'] signed_volume_cell [of d v] Cons show ?thesis
      by (simp add: fillna_def)
  qed
qed

lemma finite_no_infinity: "list_all is_fin xs \<Longrightarrow> no_infinity xs"
  by (auto simp: no_infinity_def list_all_iff)

lemma length_obv_series: "length volume = length close \<Longrightarrow> length (obv_series close volume) = length close"
  by (simp add: obv_series_def cumsum_def length_cumsum_from fillna_def length_diff)

lemma obv_series_finite:
  assumes "list_all is_fin close" "list_all is_fin volume"
  shows "list_all is_fin (obv_series close volume)"
  unfolding obv_series_def cumsum_def
  using assms
  by (intro cumsum_from_finite signed_volume_finite no_infinity_diff finite_no_infinity) simp_all

lemma obv_series_first:
  assumes "close \<noteq> []" "length volume = length close"
  shows "obv_series close volume ! 0 = Fin 0"
proof -
  from assms obtain c cs v vs where "close = c # cs" "volume = v # vs"
    by (cases close; cases volume) auto
  then show ?thesis
    by (simp add: obv_series_def cumsum_def fillna_def diff_def shift_def)
qed

text \<open>
  Claim C10. On a non-empty frame whose Close and Volume cells are all finite numbers,
  \<open>_calculate_volume_indicators\<close> raises nothing and the OBV column it stores has a finite
  number on every bar, with 0 on the first bar: the NaN change of the first bar is filled
  with 0 before the running sum.
\<close>

theorem obv_defined_everywhere:
  assumes "wf_frame df" and "get_col df ''Close'' = Inr close" and "get_col df ''Volume'' = Inr volume"
    and "close \<noteq> []" and "list_all is_fin close" and "list_all is_fin volume"
  shows "\<exists>df' obv. calculate_volume_indicators df = Inr df' \<and> get_col df' ''OBV'' = Inr obv \<and>
           length obv = length close \<and> list_all is_fin obv \<and> obv ! 0 = Fin 0"
proof -
  from assms(1,2,3) have len: "length volume = length close" by (simp add: wf_frame_length)
  from assms(2,3) obtain df' where "calculate_volume_indicators df = Inr df'"
    "get_col df' ''OBV'' = Inr (obv_series close volume)"
    by (simp add: calculate_volume_indicators_def Let_def get_set_col_same get_set_col_other)
  with len assms(4,5,6) show ?thesis
    by (simp add: length_obv_series obv_series_finite obv_series_first)
qed

theorem obv_defined_everywhere_witness:
  "wf_frame zigzag_frame \<and> get_col zigzag_frame ''Close'' = Inr [Fin 1, Fin 2, Fin 1, Fin (1/2)] \<and>
   get_col zigzag_frame ''Volume'' = Inr [Fin 10, Fin 20, Fin 30, Fin 40] \<and>
   (\<exists>df'. calculate_volume_indicators zigzag_frame = Inr df' \<and>
      get_col df' ''OBV'' = Inr [Fin 0, Fin 20, Fin (- 10), Fin (- 50)])"
proof -
  have wf: "wf_frame zigzag_frame" by (simp add: wf_frame_def zigzag_frame_def)
  have c: "get_col zigzag_frame ''Close'' = Inr [Fin 1, Fin 2, Fin 1, Fin (1/2)]"
    and v: "get_col zigzag_frame ''Volume'' = Inr [Fin 10, Fin 20, Fin 30, Fin 40]"
    by (simp_all add: get_col_def zigzag_frame_def)
  have o: "obv_series [Fin 1, Fin 2, Fin 1, Fin (1/2)] [Fin 10, Fin 20, Fin 30, Fin 40] =
      [Fin 0, Fin 20, Fin (- 10), Fin (- 50)]" by code_simp
  from obv_defined_everywhere [OF wf c v] obtain df' obv where
    "calculate_volume_indicators zigzag_frame = Inr df'" "get_col df' ''OBV'' = Inr obv" by auto
  moreover from this c v have "obv = obv_series [Fin 1, Fin 2, Fin 1, Fin (1/2)] [Fin 10, Fin 20, Fin 30, Fin 40]"
    by (auto simp: calculate_volume_indicators_def Let_def get_set_col_same get_set_col_other)
  ultimately show ?thesis using wf c v o by auto
qed

section \<open>The pipeline works on a copy\<close>

lemma in_place_Inl: "in_place step (h, Inl e) = (h, Inl e)"
  by (simp add: in_place_def)

lemma in_place_Inr:
  "in_place step (h, Inr r) = (case step (h ! r) of Inl e \<Rightarrow> (h, Inl e) | Inr f \<Rightarrow> (h[r := f], Inr r))"
  by (simp add: in_place_def)

lemma on_copy_in_place:
  assumes "on_copy h st"
  shows "on_copy h (in_place step st)"
proof (cases st)
  case (Pair h' res)
  show ?thesis
  proof (cases res)
    case (Inl e)
    with Pair assms show ?thesis by (simp add: in_place_Inl)
  next
    case (Inr r)
    with Pair assms have r: "r = length h" and l: "length h' = Suc (length h)"
      and t: "\<forall>a < length h. h' ! a = h ! a" by (simp_all add: on_copy_def)
    show ?thesis
    proof (cases "step (h' ! r)")
      case (Inl e)
      with Pair Inr l t show ?thesis by (simp add: in_place_Inr on_copy_def)
    next
      case (Inr f)
      with Pair \<open>res = Inr r\<close> r l t show ?thesis by (simp add: in_place_Inr on_copy_def)
    qed
  qed
qed

lemma in_step_in_place:
  assumes "on_copy ha sa" "on_copy hb sb" "in_step ha hb sa sb"
  shows "in_step ha hb (in_place step sa) (in_place step sb)"
proof -
  obtain h1 r1 h2 r2 where s: "sa = (h1, r1)" "sb = (h2, r2)" by (cases sa; cases sb) blast
  from assms(3) have eq: "h1 ! length ha = h2 ! length hb" unfolding in_step_def s by simp
  show ?thesis
  proof (cases r1)
    case (Inl e)
    with assms(3) have "r2 = Inl e" unfolding in_step_def s by simp
    with Inl have "in_place step sa = sa" "in_place step sb = sb"
      unfolding s by (simp_all only: in_place_Inl)
    with assms(3) show ?thesis by simp
  next
    case (Inr r)
    with assms(1) have r: "r = length ha" unfolding on_copy_def s by simp
    from Inr assms(3) have r2: "r2 = Inr (length hb)" unfolding in_step_def s by simp
    from assms(1,2) have len: "length ha < length h1" "length hb < length h2"
      unfolding on_copy_def s by simp_all
    show ?thesis
    proof (cases "step (h1 ! length ha)")
      case (Inl e)
      then have a: "in_place step sa = (h1, Inl e)"
        unfolding s Inr r in_place_Inr by simp
      from Inl have "step (h2 ! length hb) = Inl e" unfolding eq .
      then have b: "in_place step sb = (h2, Inl e)"
        unfolding s r2 in_place_Inr by simp
      show ?thesis unfolding a b in_step_def using eq by simp
    next
      case (Inr f)
      then have a: "in_place step sa = (h1[length ha := f], Inr (length ha))"
        unfolding s \<open>r1 = Inr r\<close> r in_place_Inr by simp
      from Inr have "step (h2 ! length hb) = Inr f" unfolding eq .
      then have b: "in_place step sb = (h2[length hb := f], Inr (length hb))"
        unfolding s r2 in_place_Inr by simp
      show ?thesis unfolding a b in_step_def using len by simp
    qed
  qed
qed

lemma on_copy_copy_frame: "on_copy h (fst (copy_frame h a), Inr (snd (copy_frame h a)))"
  by (simp add: on_copy_def copy_frame_def nth_append)

lemma on_copy_calculate_all: "on_copy h (calculate_all cfg h a)"
  unfolding calculate_all_def Let_def split_def
  by (intro on_copy_in_place on_copy_copy_frame)

lemma in_step_calculate_all:
  assumes "ha ! a = hb ! a"
  shows "in_step ha hb (calculate_all cfg ha a) (calculate_all cfg hb a)"
  unfolding calculate_all_def Let_def split_def
  by (intro in_step_in_place on_copy_in_place on_copy_copy_frame)
     (simp add: in_step_def copy_frame_def assms)

lemma on_copy_nth: "on_copy h (h', r) \<Longrightarrow> a < length h \<Longrightarrow> h' ! a = h ! a"
  by (simp add: on_copy_def)

text \<open>
  Claim C8. \<open>calculate_all\<close> leaves the input object as it was, and a second call on the
  same unchanged input gives the same outcome: the same exception, or a new object, distinct
  from the input and from the first result, that is equal to the first result cell for cell
  (the first result is not touched by the second call either).
\<close>

theorem calculate_all_repeatable:
  assumes "data < length h"
    and "calculate_all cfg h data = (h1, r1)" and "calculate_all cfg h1 data = (h2, r2)"
  shows "h1 ! data = h ! data \<and> h2 ! data = h ! data \<and>
         (case r1 of Inl e \<Rightarrow> r2 = Inl e
          | Inr out1 \<Rightarrow> (\<exists>out2. r2 = Inr out2 \<and> out1 \<noteq> data \<and> out2 \<noteq> data \<and> out2 \<noteq> out1 \<and>
               h2 ! out2 = h1 ! out1 \<and> h2 ! out1 = h1 ! out1))"
proof -
  from on_copy_calculate_all [of h cfg data] assms(2) have c1: "on_copy h (h1, r1)" by simp
  from on_copy_calculate_all [of h1 cfg data] assms(3) have c2: "on_copy h1 (h2, r2)" by simp
  from c1 have len1: "length h1 = Suc (length h)" by (simp add: on_copy_def)
  from c1 assms(1) have d1: "h1 ! data = h ! data" by (rule on_copy_nth)
  from c2 assms(1) len1 have d2: "h2 ! data = h1 ! data" by (intro on_copy_nth) simp_all
  from in_step_calculate_all [of h data h1 cfg] d1 assms(2,3)
  have st: "in_step h h1 (h1, r1) (h2, r2)" by simp
  show ?thesis
  proof (cases r1)
    case (Inl e)
    with st d1 d2 show ?thesis by (simp add: in_step_def)
  next
    case (Inr out1)
    with c1 have o1: "out1 = length h" by (simp add: on_copy_def)
    from Inr st have r2: "r2 = Inr (length h1)" and eq: "h1 ! length h = h2 ! length h1"
      by (simp_all add: in_step_def)
    from c2 len1 have "h2 ! length h = h1 ! length h" by (intro on_copy_nth) simp_all
    with Inr o1 r2 eq d1 d2 len1 assms(1) show ?thesis by simp
  qed
qed

section \<open>The pipeline raises nothing on a frame with the five input columns\<close>

lemma has_col_set_col: "has_col (set_col name c df) name' \<longleftrightarrow> name' = name \<or> has_col df name'"
  by (simp add: has_col_def set_col_def map_of_assign)

lemma has_ohlcv_set_col: "has_ohlcv df \<Longrightarrow> has_ohlcv (set_col name c df)"
  by (simp add: has_ohlcv_def has_col_set_col)

lemma has_col_get: "has_col df name \<Longrightarrow> \<exists>c. get_col df name = Inr c"
  by (auto simp: has_col_def get_col_def)

lemma has_ohlcv_get:
  assumes "has_ohlcv df"
  shows "\<exists>c. get_col df ''High'' = Inr c" "\<exists>c. get_col df ''Low'' = Inr c"
    "\<exists>c. get_col df ''Close'' = Inr c" "\<exists>c. get_col df ''Volume'' = Inr c"
  using assms by (simp_all add: has_ohlcv_def has_col_get)

lemma sma_loop_total:
  "has_ohlcv df \<Longrightarrow> list_all (\<lambda>p. 0 \<le> p) ps \<Longrightarrow> \<exists>df'. sma_loop ps df = Inr df' \<and> has_ohlcv df'"
proof (induction ps arbitrary: df)
  case Nil
  then show ?case by simp
next
  case (Cons p ps)
  from has_ohlcv_get(3) [OF Cons.prems(1)] obtain close where "get_col df ''Close'' = Inr close" ..
  with Cons.prems Cons.IH [of "set_col (''SMA_'' @ show_nat (nat p)) (rolling (nat p) agg_mean close) df"]
  show ?case by (simp add: has_ohlcv_set_col del: show_nat.simps)
qed

lemma ema_loop_total:
  "has_ohlcv df \<Longrightarrow> list_all (\<lambda>p. 1 \<le> p) ps \<Longrightarrow> \<exists>df'. ema_loop ps df = Inr df' \<and> has_ohlcv df'"
proof (induction ps arbitrary: df)
  case Nil
  then show ?case by simp
next
  case (Cons p ps)
  from has_ohlcv_get(3) [OF Cons.prems(1)] obtain close where "get_col df ''Close'' = Inr close" ..
  with Cons.prems Cons.IH [of "set_col (''EMA_'' @ show_nat (nat p)) (ewm_mean (nat p) close) df"]
  show ?case by (simp add: has_ohlcv_set_col del: show_nat.simps)
qed

lemma crosses_has_ohlcv: "has_ohlcv df \<Longrightarrow> has_ohlcv (crosses df)"
  by (simp add: crosses_def has_ohlcv_set_col split: option.splits)

lemma calculate_moving_averages_total:
  assumes "has_ohlcv df" "valid_config cfg"
  shows "\<exists>df'. calculate_moving_averages cfg df = Inr df' \<and> has_ohlcv df'"
proof -
  from assms sma_loop_total [of df "sma_periods cfg"] obtain df1 where
    1: "sma_loop (sma_periods cfg) df = Inr df1" "has_ohlcv df1" by (auto simp: valid_config_def)
  from assms 1 ema_loop_total [of df1 "ema_periods cfg"] obtain df2 where
    2: "ema_loop (ema_periods cfg) df1 = Inr df2" "has_ohlcv df2" by (auto simp: valid_config_def)
  with 1 show ?thesis by (simp add: calculate_moving_averages_def crosses_has_ohlcv)
qed

lemma calculate_rsi_total:
  assumes "has_ohlcv df" "valid_config cfg"
  shows "\<exists>df'. calculate_rsi cfg df = Inr df' \<and> has_ohlcv df'"
  using assms has_ohlcv_get [OF assms(1)]
  by (auto simp: calculate_rsi_def valid_config_def Let_def has_ohlcv_set_col)

lemma calculate_macd_total:
  assumes "has_ohlcv df" "valid_config cfg"
  shows "\<exists>df'. calculate_macd cfg df = Inr df' \<and> has_ohlcv df'"
  using assms has_ohlcv_get [OF assms(1)]
  by (auto simp: calculate_macd_def valid_config_def Let_def has_ohlcv_set_col)

lemma calculate_bollinger_bands_total:
  assumes "has_ohlcv df" "valid_config cfg"
  shows "\<exists>df'. calculate_bollinger_bands cfg df = Inr df' \<and> has_ohlcv df'"
  using assms has_ohlcv_get [OF assms(1)]
  by (auto simp: calculate_bollinger_bands_def valid_config_def Let_def has_ohlcv_set_col)

lemma calculate_stochastic_total:
  assumes "has_ohlcv df" "valid_config cfg"
  shows "\<exists>df'. calculate_stochastic cfg df = Inr df' \<and> has_ohlcv df'"
  using assms has_ohlcv_get [OF assms(1)]
  by (auto simp: calculate_stochastic_def valid_config_def Let_def has_ohlcv_set_col)

lemma calculate_williams_r_total:
  assumes "has_ohlcv df"
  shows "\<exists>df'. calculate_williams_r df = Inr df' \<and> has_ohlcv df'"
  using assms has_ohlcv_get [OF assms(1)]
  by (auto simp: calculate_williams_r_def Let_def has_ohlcv_set_col)

lemma calculate_cci_total:
  assumes "has_ohlcv df"
  shows "\<exists>df'. calculate_cci df = Inr df' \<and> has_ohlcv df'"
  using assms has_ohlcv_get [OF assms(1)]
  by (auto simp: calculate_cci_def Let_def has_ohlcv_set_col)

lemma calculate_volume_indicators_total:
  assumes "has_ohlcv df"
  shows "\<exists>df'. calculate_volume_indicators df = Inr df' \<and> has_ohlcv df'"
  using assms has_ohlcv_get [OF assms(1)]
  by (auto simp: calculate_volume_indicators_def Let_def has_ohlcv_set_col)

lemma calculate_atr_total:
  assumes "has_ohlcv df"
  shows "\<exists>df'. calculate_atr df = Inr df' \<and> has_ohlcv df' \<and> has_col df' ''ATR''"
  using assms has_ohlcv_get [OF assms(1)]
  by (auto simp: calculate_atr_def Let_def has_ohlcv_set_col has_col_set_col)

lemma calculate_keltner_channels_total:
  assumes "has_ohlcv df"
  shows "\<exists>df'. calculate_keltner_channels df = Inr df' \<and> has_ohlcv df'"
proof -
  from has_ohlcv_get(3) [OF assms] obtain close where c: "get_col df ''Close'' = Inr close" ..
  from assms calculate_atr_total [OF assms] obtain df0 where
    0: "(if has_col df ''ATR'' then Inr df else calculate_atr df) = Inr df0" "has_ohlcv df0"
       "has_col df0 ''ATR''" by (cases "has_col df ''ATR''") auto
  from has_col_get [OF 0(3)] obtain atr where "get_col df0 ''ATR'' = Inr atr" ..
  with c 0 show ?thesis
    by (simp add: calculate_keltner_channels_def Let_def has_ohlcv_set_col)
qed

lemma calculate_ichimoku_total:
  assumes "has_ohlcv df"
  shows "\<exists>df'. calculate_ichimoku df = Inr df' \<and> has_ohlcv df'"
proof -
  from has_ohlcv_get [OF assms] obtain high low close where
    "get_col df ''High'' = Inr high" "get_col df ''Low'' = Inr low" "get_col df ''Close'' = Inr close"
    by blast
  then show ?thesis using assms
    by (simp add: calculate_ichimoku_def Let_def has_ohlcv_set_col get_set_col_other)
qed

lemma calculate_vwap_total:
  assumes "has_ohlcv df"
  shows "\<exists>df'. calculate_vwap df = Inr df' \<and> has_ohlcv df'"
  using assms has_ohlcv_get [OF assms(1)]
  by (auto simp: calculate_vwap_def Let_def has_ohlcv_set_col)

lemma in_place_total:
  assumes "\<And>df. has_ohlcv df \<Longrightarrow> \<exists>df'. step df = Inr df' \<and> has_ohlcv df'"
    and "no_exception r st"
  shows "no_exception r (in_place step st)"
proof -
  obtain h where st: "st = (h, Inr r)" and r: "r < length h" and o: "has_ohlcv (h ! r)"
    using assms(2) by (cases st) (auto simp: no_exception_def)
  from assms(1) [OF o] obtain df' where "step (h ! r) = Inr df'" "has_ohlcv df'" by blast
  with r show ?thesis unfolding st in_place_Inr by (simp add: no_exception_def)
qed

lemma calculate_all_total:
  assumes "data < length h" "has_ohlcv (h ! data)" "valid_config cfg"
  shows "no_exception (length h) (calculate_all cfg h data)"
proof -
  have 0: "no_exception (length h) (h @ [h ! data], Inr (length h))"
    using assms(2) by (simp add: no_exception_def)
  note steps =
    calculate_moving_averages_total [OF _ assms(3)] calculate_rsi_total [OF _ assms(3)]
    calculate_macd_total [OF _ assms(3)] calculate_bollinger_bands_total [OF _ assms(3)]
    calculate_stochastic_total [OF _ assms(3)] calculate_williams_r_total calculate_cci_total
    calculate_volume_indicators_total calculate_keltner_channels_total
    calculate_ichimoku_total calculate_vwap_total
  have atr: "\<And>df. has_ohlcv df \<Longrightarrow> \<exists>df'. calculate_atr df = Inr df' \<and> has_ohlcv df'"
    using calculate_atr_total by blast
  show ?thesis
    unfolding calculate_all_def copy_frame_def Let_def prod.case
    by (intro in_place_total 0; (rule steps atr; assumption))
qed

text \<open>
  On the three flat bars and the default configuration: the first call returns object 1,
  the second call object 2, the two are equal and the input, object 0, is as it was.
\<close>

theorem calculate_all_repeatable_witness:
  "0 < length [flat_frame] \<and>
   snd (calculate_all default_config [flat_frame] 0) = Inr 1 \<and>
   snd (calculate_all default_config (fst (calculate_all default_config [flat_frame] 0)) 0) = Inr 2 \<and>
   fst (calculate_all default_config [flat_frame] 0) ! 0 = flat_frame \<and>
   fst (calculate_all default_config (fst (calculate_all default_config [flat_frame] 0)) 0) ! 2 =
     fst (calculate_all default_config [flat_frame] 0) ! 1"
proof -
  let ?h1 = "fst (calculate_all default_config [flat_frame] 0)"
  let ?r1 = "snd (calculate_all default_config [flat_frame] 0)"
  let ?h2 = "fst (calculate_all default_config ?h1 0)"
  let ?r2 = "snd (calculate_all default_config ?h1 0)"
  have v: "valid_config default_config" by (simp add: valid_config_def default_config_def)
  have o: "has_ohlcv flat_frame" by (simp add: has_ohlcv_def has_col_def flat_frame_def)
  have d: "0 < length [flat_frame]" by simp
  from calculate_all_total [OF d _ v] o have r1: "?r1 = Inr 1"
    by (simp add: no_exception_def)
  have a: "calculate_all default_config [flat_frame] 0 = (?h1, ?r1)"
    and b: "calculate_all default_config ?h1 0 = (?h2, ?r2)" by simp_all
  from calculate_all_repeatable [OF d a b] r1 have
    "?h1 ! 0 = flat_frame \<and> ?h2 ! 0 = flat_frame \<and>
     (\<exists>out2. ?r2 = Inr out2 \<and> ?h2 ! out2 = ?h1 ! 1)" by auto
  moreover from on_copy_calculate_all [of "[flat_frame]" default_config 0]
  have l: "length ?h1 = 2" by (simp add: on_copy_def)
  moreover from on_copy_calculate_all [of ?h1 default_config 0] l
  have "\<forall>r. ?r2 = Inr r \<longrightarrow> r = 2" by (simp add: on_copy_def)
  ultimately show ?thesis using r1 by auto
qed

section \<open>Risk metrics: the degenerate case and the drawdown\<close>

text \<open>
  Claim C4. On a frame with a Close column whose return sequence has fewer than 30
  observations, \<open>_calculate_risk_metrics\<close> raises nothing and returns the RiskMetrics with
  every field 0.
\<close>

theorem risk_metrics_insufficient_data:
  assumes "get_col data ''Close'' = Inr close" and "length (returns_of close) < 30"
  shows "calculate_risk_metrics data =
           Inr \<lparr>var_95 = Fin 0, var_99 = Fin 0, expected_shortfall = Fin 0, max_drawdown = Fin 0,
                sharpe_ratio = Fin 0, sortino_ratio = Fin 0, calmar_ratio = Fin 0,
                beta = Fin 0, alpha = Fin 0\<rparr>"
  using assms by (simp add: calculate_risk_metrics_def)

theorem risk_metrics_insufficient_data_witness:
  "get_col flat_frame ''Close'' = Inr [Fin 5, Fin 5, Fin 5] \<and>
   length (returns_of [Fin 5, Fin 5, Fin 5]) < 30 \<and>
   calculate_risk_metrics flat_frame =
     Inr \<lparr>var_95 = Fin 0, var_99 = Fin 0, expected_shortfall = Fin 0, max_drawdown = Fin 0,
          sharpe_ratio = Fin 0, sortino_ratio = Fin 0, calmar_ratio = Fin 0,
          beta = Fin 0, alpha = Fin 0\<rparr>"
proof -
  have c: "get_col flat_frame ''Close'' = Inr [Fin 5, Fin 5, Fin 5]"
    by (simp add: get_col_def flat_frame_def)
  have l: "length (returns_of [Fin 5, Fin 5, Fin 5]) < 30" by code_simp
  from risk_metrics_insufficient_data [OF c l] c l show ?thesis by simp
qed

lemma positive_cell: "is_fin c \<and> cgt c (Fin 0) \<longleftrightarrow> (\<exists>a. c = Fin a \<and> 0 < a)"
  by (cases c) (auto simp: cgt_def)

lemma ffill_from_no_nan: "NaN \<notin> set xs \<Longrightarrow> ffill_from prev xs = xs"
  by (induction xs arbitrary: prev) auto

lemma positive_prices_no_nan: "positive_prices xs \<Longrightarrow> NaN \<notin> set xs"
  by (auto simp: positive_prices_def list_all_iff)

text \<open>The returns of positive prices, from the second bar on, as growth factors.\<close>

lemma growth_factors:
  assumes "positive_prices (c # cs)" "c = Fin a"
  shows "positive_prices (map (cadd (Fin 1)) (map2 (\<lambda>x y. csub (cdiv x y) (Fin 1)) cs (c # cs)))
         \<and> length (map2 (\<lambda>x y. csub (cdiv x y) (Fin 1)) cs (c # cs)) = length cs"
  using assms
proof (induction cs arbitrary: c a)
  case Nil
  then show ?case by (simp add: positive_prices_def)
next
  case (Cons d ds)
  from Cons.prems obtain b where b: "d = Fin b" "0 < b" and a: "0 < a"
    by (auto simp: positive_prices_def positive_cell)
  from Cons.prems b have "positive_prices (d # ds)" by (simp add: positive_prices_def)
  from Cons.IH [OF this b(1)] a b Cons.prems(2) show ?case
    by (simp add: positive_prices_def csub_def cgt_def)
qed

lemma zip_take_right: "zip xs (take (length xs) ys) = zip xs ys"
proof (induction xs arbitrary: ys)
  case Nil
  then show ?case by simp
next
  case (Cons x xs)
  then show ?case by (cases ys) simp_all
qed

lemma dropna_no_nan: "NaN \<notin> set xs \<Longrightarrow> dropna xs = xs"
  unfolding dropna_def by (induction xs) auto

lemma returns_of_positive:
  assumes "positive_prices close"
  shows "positive_prices (map (cadd (Fin 1)) (returns_of close)) \<and> length (returns_of close) = length close - 1"
proof (cases close)
  case Nil
  then show ?thesis by (simp add: returns_of_def pct_change_def ffill_def shift_def dropna_def positive_prices_def)
next
  case (Cons c cs)
  with assms obtain a where a: "c = Fin a" by (auto simp: positive_prices_def positive_cell)
  let ?rs = "map2 (\<lambda>x y. csub (cdiv x y) (Fin 1)) cs (c # cs)"
  from growth_factors [OF assms [unfolded Cons] a]
  have g: "positive_prices (map (cadd (Fin 1)) ?rs)" "length ?rs = length cs" by simp_all
  have "NaN \<notin> set ?rs"
  proof
    assume "NaN \<in> set ?rs"
    then have "cadd (Fin 1) NaN \<in> set (map (cadd (Fin 1)) ?rs)" unfolding set_map by (rule imageI)
    with g(1) show False by (auto simp: positive_prices_def list_all_iff)
  qed
  then have d: "dropna ?rs = ?rs" by (rule dropna_no_nan)
  have "ffill close = close"
    using positive_prices_no_nan [OF assms] by (simp add: ffill_def ffill_from_no_nan)
  then have "pct_change 1 close = NaN # ?rs"
    by (simp add: pct_change_def Cons shift_def a zip_take_right)
  then have "returns_of close = ?rs" by (simp add: returns_of_def dropna_def d [unfolded dropna_def])
  with g Cons show ?thesis by simp
qed

lemma cumprod_from_positive:
  "positive_prices fs \<Longrightarrow> 0 < a \<Longrightarrow> positive_prices (cumprod_from (Fin a) fs)"
proof (induction fs arbitrary: a)
  case Nil
  then show ?case by (simp add: positive_prices_def)
next
  case (Cons f fs)
  from Cons.prems obtain b where b: "f = Fin b" "0 < b" by (auto simp: positive_prices_def positive_cell)
  with Cons.prems have "positive_prices fs" "0 < a * b" by (simp_all add: positive_prices_def)
  from Cons.IH [OF this] b Cons.prems(2) show ?case by (simp add: positive_prices_def cgt_def)
qed

lemma cumulative_path_positive: "positive_prices close \<Longrightarrow> positive_prices (cumulative_path close)"
  unfolding cumulative_path_def cumprod_def
  by (rule cumprod_from_positive) (simp_all add: returns_of_positive)

lemma length_expanding_max_from: "length (expanding_max_from best xs) = length xs"
  by (induction xs arbitrary: best) (auto simp: Let_def)

lemma drawdown_from:
  assumes "positive_prices cs" "best = NaN \<or> (\<exists>b. best = Fin b \<and> 0 < b)"
  shows "list_all (\<lambda>d. \<exists>v. d = Fin v \<and> v \<le> 0)
           (map2 cdiv (map2 csub cs (expanding_max_from best cs)) (expanding_max_from best cs)) \<and>
         (list_all (\<lambda>d. d = Fin 0)
           (map2 cdiv (map2 csub cs (expanding_max_from best cs)) (expanding_max_from best cs))
          \<longleftrightarrow> sorted_wrt cle cs \<and> list_all (\<lambda>c. best = NaN \<or> cle best c) cs)"
  using assms
proof (induction cs arbitrary: best)
  case Nil
  then show ?case by simp
next
  case (Cons x xs)
  from Cons.prems(1) obtain a where a: "x = Fin a" "0 < a" and xs: "positive_prices xs"
    by (auto simp: positive_prices_def positive_cell)
  define m where "m = (case best of Fin b \<Rightarrow> max b a | _ \<Rightarrow> a)"
  from Cons.prems(2) a have best': "(if is_fin x then cmax best x else best) = Fin m" and m: "0 < m" "a \<le> m"
    by (auto simp: m_def cmax_def)
  have d0: "cdiv (csub x (Fin m)) (Fin m) = Fin ((a - m) / m)"
    using m a by (simp add: csub_def)
  have d0_le: "(a - m) / m \<le> 0" using m by (simp add: divide_le_0_iff)
  have d0_zero: "(a - m) / m = 0 \<longleftrightarrow> (best = NaN \<or> cle best x)"
    using Cons.prems(2) a m by (auto simp: m_def cle_def)
  have IH: "list_all (\<lambda>d. \<exists>v. d = Fin v \<and> v \<le> 0)
           (map2 cdiv (map2 csub xs (expanding_max_from (Fin m) xs)) (expanding_max_from (Fin m) xs)) \<and>
         (list_all (\<lambda>d. d = Fin 0)
           (map2 cdiv (map2 csub xs (expanding_max_from (Fin m) xs)) (expanding_max_from (Fin m) xs))
          \<longleftrightarrow> sorted_wrt cle xs \<and> list_all (\<lambda>c. cle (Fin m) c) xs)"
    using Cons.IH [OF xs, of "Fin m"] m(1) by simp
  have pos: "\<forall>c \<in> set xs. \<exists>v. c = Fin v \<and> 0 < v"
    using xs by (auto simp: positive_prices_def list_all_iff positive_cell)
  have key: "(best = NaN \<or> cle best x) \<and> list_all (\<lambda>c. cle (Fin m) c) xs
      \<longleftrightarrow> (\<forall>y \<in> set xs. cle x y) \<and> (best = NaN \<or> cle best x) \<and> list_all (\<lambda>c. best = NaN \<or> cle best c) xs"
  proof (cases "best = NaN")
    case True
    with a show ?thesis by (simp add: m_def list_all_iff)
  next
    case False
    with Cons.prems(2) obtain b where b: "best = Fin b" by auto
    show ?thesis
    proof (cases "b \<le> a")
      case True
      then have "m = a" by (simp add: m_def b max_def)
      with b a True pos show ?thesis by (fastforce simp: list_all_iff cle_def)
    next
      case False
      with b a show ?thesis by (simp add: cle_def)
    qed
  qed
  show ?case
    using IH d0 d0_le d0_zero key best' by (auto simp: Let_def)
qed

lemma fold_cmin_nonpos:
  assumes "list_all (\<lambda>d. \<exists>v. d = Fin v \<and> v \<le> 0) ds" "acc = NaN \<or> (\<exists>e. acc = Fin e \<and> e \<le> 0)"
    "ds \<noteq> [] \<or> acc \<noteq> NaN"
  shows "\<exists>m. fold (\<lambda>x acc. cmin acc x) ds acc = Fin m \<and> m \<le> 0 \<and>
           (m = 0 \<longleftrightarrow> list_all (\<lambda>d. d = Fin 0) ds \<and> (acc = NaN \<or> acc = Fin 0))"
  using assms
proof (induction ds arbitrary: acc)
  case Nil
  then show ?case by auto
next
  case (Cons d ds)
  from Cons.prems(1) obtain v where v: "d = Fin v" "v \<le> 0" and ds: "list_all (\<lambda>d. \<exists>v. d = Fin v \<and> v \<le> 0) ds"
    by auto
  define e where "e = (case acc of Fin e \<Rightarrow> min e v | _ \<Rightarrow> v)"
  from Cons.prems(2) v have acc': "cmin acc d = Fin e" and e: "e \<le> 0"
    "e = 0 \<longleftrightarrow> v = 0 \<and> (acc = NaN \<or> acc = Fin 0)"
    by (auto simp: e_def cmin_def min_def split: if_splits)
  from Cons.IH [OF ds, of "Fin e"] e(1) obtain m where
    "fold (\<lambda>x acc. cmin acc x) ds (Fin e) = Fin m" "m \<le> 0"
    "m = 0 \<longleftrightarrow> list_all (\<lambda>d. d = Fin 0) ds \<and> e = 0" by auto
  with acc' e(2) v(1) show ?case by auto
qed

lemma length_cumprod_from: "length (cumprod_from acc xs) = length xs"
  by (induction xs arbitrary: acc) auto

lemma max_drawdown_of_positive:
  assumes "positive_prices close" "returns_of close \<noteq> []"
  shows "\<exists>m. series_min (drawdown_series (returns_of close)) = Fin m \<and> m \<le> 0 \<and>
           (m = 0 \<longleftrightarrow> non_decreasing (cumulative_path close))"
proof -
  let ?cs = "cumulative_path close"
  let ?ds = "map2 cdiv (map2 csub ?cs (expanding_max_from NaN ?cs)) (expanding_max_from NaN ?cs)"
  have ds: "drawdown_series (returns_of close) = ?ds"
    by (simp add: drawdown_series_def cumulative_path_def expanding_max_def Let_def)
  from drawdown_from [OF cumulative_path_positive [OF assms(1)], of NaN]
  have 1: "list_all (\<lambda>d. \<exists>v. d = Fin v \<and> v \<le> 0) ?ds"
    and 2: "list_all (\<lambda>d. d = Fin 0) ?ds \<longleftrightarrow> sorted_wrt cle ?cs"
    by (simp_all add: list_all_iff)
  have "length ?ds = length (returns_of close)"
    by (simp add: cumulative_path_def cumprod_def length_cumprod_from length_expanding_max_from)
  with assms(2) have ne: "?ds \<noteq> []" by (metis length_0_conv)
  from fold_cmin_nonpos [OF 1, of NaN] ne obtain m where
    "fold (\<lambda>x acc. cmin acc x) ?ds NaN = Fin m" "m \<le> 0" "m = 0 \<longleftrightarrow> list_all (\<lambda>d. d = Fin 0) ?ds"
    by auto
  then show ?thesis
    unfolding ds series_min_def non_decreasing_def 2 by blast
qed

text \<open>
  Claim C5, as the code has it. For a frame of positive finite closes \<open>_calculate_risk_metrics\<close>
  returns a \<open>max_drawdown\<close> that is at most 0, and it is 0 exactly when there are fewer than
  30 return observations (the all-zero result, whatever the path does) or the
  cumulative-return path is non-decreasing.
\<close>

theorem max_drawdown_nonpositive:
  assumes "get_col data ''Close'' = Inr close" and "positive_prices close"
  shows "\<exists>m. calculate_risk_metrics data = Inr m \<and> cle (max_drawdown m) (Fin 0) \<and>
           (max_drawdown m = Fin 0 \<longleftrightarrow>
              length (returns_of close) < 30 \<or> non_decreasing (cumulative_path close))"
proof (cases "length (returns_of close) < 30")
  case True
  with assms(1) show ?thesis by (simp add: calculate_risk_metrics_def cle_def)
next
  case False
  then have "returns_of close \<noteq> []" by auto
  from max_drawdown_of_positive [OF assms(2) this] obtain m where
    m: "series_min (drawdown_series (returns_of close)) = Fin m" "m \<le> 0"
       "m = 0 \<longleftrightarrow> non_decreasing (cumulative_path close)" by blast
  from assms(1) False obtain r where
    "calculate_risk_metrics data = Inr r" "max_drawdown r = series_min (drawdown_series (returns_of close))"
    by (simp add: calculate_risk_metrics_def Let_def)
  with m False show ?thesis by (simp add: cle_def)
qed

lemma dip_returns: "length (returns_of (replicate 30 (Fin 100) @ [Fin 50])) = 30"
  by code_simp

lemma dip_path: "\<not> non_decreasing (cumulative_path (replicate 30 (Fin 100) @ [Fin 50]))"
  by code_simp

theorem max_drawdown_nonpositive_witness:
  "get_col dip_frame ''Close'' = Inr (replicate 30 (Fin 100) @ [Fin 50]) \<and>
   positive_prices (replicate 30 (Fin 100) @ [Fin 50]) \<and>
   (\<exists>m. calculate_risk_metrics dip_frame = Inr m \<and> cle (max_drawdown m) (Fin 0) \<and>
        max_drawdown m \<noteq> Fin 0)"
proof -
  have c: "get_col dip_frame ''Close'' = Inr (replicate 30 (Fin 100) @ [Fin 50])"
    by (simp add: get_col_def dip_frame_def)
  have p: "positive_prices (replicate 30 (Fin 100) @ [Fin 50])"
    by (simp add: positive_prices_def list_all_iff cgt_def)
  from max_drawdown_nonpositive [OF c p] c p dip_returns dip_path
  show ?thesis by auto
qed

text \<open>
  Claim C5 as stated fails below 30 returns: the closes 4, 2, 1 give the path 1/2, 1/4,
  which falls, and the \<open>max_drawdown\<close> returned is 0.
\<close>

lemma falling_returns: "returns_of [Fin 4, Fin 2, Fin 1] = [Fin (- (1 / 2)), Fin (- (1 / 2))]"
  by code_simp

theorem max_drawdown_short_series_counterexample:
  "calculate_risk_metrics falling_frame =
     Inr \<lparr>var_95 = Fin 0, var_99 = Fin 0, expected_shortfall = Fin 0, max_drawdown = Fin 0,
          sharpe_ratio = Fin 0, sortino_ratio = Fin 0, calmar_ratio = Fin 0,
          beta = Fin 0, alpha = Fin 0\<rparr> \<and>
   cumulative_path [Fin 4, Fin 2, Fin 1] = [Fin (1 / 2), Fin (1 / 4)] \<and>
   \<not> non_decreasing [Fin (1 / 2), Fin (1 / 4)]"
proof -
  have "get_col falling_frame ''Close'' = Inr [Fin 4, Fin 2, Fin 1]"
    by (simp add: get_col_def falling_frame_def)
  then have "calculate_risk_metrics falling_frame =
     Inr \<lparr>var_95 = Fin 0, var_99 = Fin 0, expected_shortfall = Fin 0, max_drawdown = Fin 0,
          sharpe_ratio = Fin 0, sortino_ratio = Fin 0, calmar_ratio = Fin 0,
          beta = Fin 0, alpha = Fin 0\<rparr>"
    by (simp add: calculate_risk_metrics_def falling_returns)
  moreover have "cumulative_path [Fin 4, Fin 2, Fin 1] = [Fin (1 / 2), Fin (1 / 4)]" by code_simp
  moreover have "\<not> non_decreasing [Fin (1 / 2), Fin (1 / 4)]" by code_simp
  ultimately show ?thesis by simp
qed

section \<open>Market regime: precedence of the rules\<close>

















section \<open>Diversification ratio\<close>


lemma analyze_portfolio_ratio:
  assumes "analyze_portfolio decompose data symbols = Inr (Some snap)"
  shows "diversification_ratio snap = calculate_diversification_ratio (correlation_matrix snap)"
  using assms
  by (auto simp: analyze_portfolio_def Let_def split: sum.splits if_splits)



lemma sqrt_81_16: "sqrt (81 / 16) = 9 / 4"
  by (rule real_sqrt_unique) (simp_all add: power2_eq_square)




lemma mirrored_stats:
  "sum_sq_dev [1, - (1 / 2), 1, - (1 / 2)] = 9 / 4" "sum_sq_dev [- (1 / 2), 1, - (1 / 2), 1] = 9 / 4"
  "co_dev [1, - (1 / 2), 1, - (1 / 2)] [- (1 / 2), 1, - (1 / 2), 1] = - (9 / 4)"
  "co_dev [- (1 / 2), 1, - (1 / 2), 1] [1, - (1 / 2), 1, - (1 / 2)] = - (9 / 4)"
  "co_dev [1, - (1 / 2), 1, - (1 / 2)] [1, - (1 / 2), 1, - (1 / 2)] = 9 / 4"
  "co_dev [- (1 / 2), 1, - (1 / 2), 1] [- (1 / 2), 1, - (1 / 2), 1] = 9 / 4"
  by code_simp+

lemma pair_corr_finite:
  assumes "xs \<noteq> []" "length xs = length ys" "sqrt (sum_sq_dev xs * sum_sq_dev ys) = d" "d \<noteq> 0"
  shows "pair_corr (map Fin xs) (map Fin ys) = Fin (clip1 (co_dev xs ys / d))"
proof -
  have "filter (\<lambda>(x, y). is_fin x \<and> is_fin y) (zip (map Fin xs) (map Fin ys)) = zip (map Fin xs) (map Fin ys)"
    by (rule filter_True) (auto simp: zip_map_map)
  with assms show ?thesis
    by (simp add: pair_corr_def finite_vals_map_Fin)
qed

lemma mirrored_pairs:
  "pair_corr [Fin 1, Fin (- (1 / 2)), Fin 1, Fin (- (1 / 2))] [Fin 1, Fin (- (1 / 2)), Fin 1, Fin (- (1 / 2))] = Fin 1"
  "pair_corr [Fin 1, Fin (- (1 / 2)), Fin 1, Fin (- (1 / 2))] [Fin (- (1 / 2)), Fin 1, Fin (- (1 / 2)), Fin 1] = Fin (- 1)"
  "pair_corr [Fin (- (1 / 2)), Fin 1, Fin (- (1 / 2)), Fin 1] [Fin 1, Fin (- (1 / 2)), Fin 1, Fin (- (1 / 2))] = Fin (- 1)"
  "pair_corr [Fin (- (1 / 2)), Fin 1, Fin (- (1 / 2)), Fin 1] [Fin (- (1 / 2)), Fin 1, Fin (- (1 / 2)), Fin 1] = Fin 1"
  using pair_corr_finite [of "[1, - (1 / 2), 1, - (1 / 2)]" "[1, - (1 / 2), 1, - (1 / 2)]" "9 / 4"]
    pair_corr_finite [of "[1, - (1 / 2), 1, - (1 / 2)]" "[- (1 / 2), 1, - (1 / 2), 1]" "9 / 4"]
    pair_corr_finite [of "[- (1 / 2), 1, - (1 / 2), 1]" "[1, - (1 / 2), 1, - (1 / 2)]" "9 / 4"]
    pair_corr_finite [of "[- (1 / 2), 1, - (1 / 2), 1]" "[- (1 / 2), 1, - (1 / 2), 1]" "9 / 4"]
  by (simp_all add: mirrored_stats sqrt_81_16 clip1_def)












text \<open>
  When the mean off-diagonal correlation is exactly 0, as for \<open>asset_a\<close> and \<open>asset_b\<close>,
  the same division is \<open>1 / 0.0\<close>.
\<close>

lemma uncorrelated_rows:
  "portfolio_returns_data [(''A'', asset_a), (''B'', asset_b)] [''A'', ''B''] =
     Inr [[(0, NaN), (1, Fin 1), (2, Fin (- (1 / 2))), (3, Fin 1), (4, Fin (- (1 / 2)))],
          [(0, NaN), (1, Fin 1), (2, Fin 1), (3, Fin (- (1 / 2))), (4, Fin (- (1 / 2)))]]"
  by code_simp

lemma uncorrelated_frame:
  "dropna_frame [[(0, NaN), (1, Fin 1), (2, Fin (- (1 / 2))), (3, Fin 1), (4, Fin (- (1 / 2)))],
          [(0, NaN), (1, Fin 1), (2, Fin 1), (3, Fin (- (1 / 2))), (4, Fin (- (1 / 2)))]] =
     [map Fin [1, - (1 / 2), 1, - (1 / 2)], map Fin [1, 1, - (1 / 2), - (1 / 2)]]"
  by code_simp

lemma uncorrelated_stats:
  "sum_sq_dev [1, 1, - (1 / 2), - (1 / 2)] = 9 / 4" "co_dev [1, - (1 / 2), 1, - (1 / 2)] [1, 1, - (1 / 2), - (1 / 2)] = 0" "co_dev [1, 1, - (1 / 2), - (1 / 2)] [1, - (1 / 2), 1, - (1 / 2)] = 0" "co_dev [1, 1, - (1 / 2), - (1 / 2)] [1, 1, - (1 / 2), - (1 / 2)] = 9 / 4"
  by code_simp+

lemma uncorrelated_pairs:
  "pair_corr [Fin 1, Fin (- (1 / 2)), Fin 1, Fin (- (1 / 2))] [Fin 1, Fin 1, Fin (- (1 / 2)), Fin (- (1 / 2))] = Fin 0"
  "pair_corr [Fin 1, Fin 1, Fin (- (1 / 2)), Fin (- (1 / 2))] [Fin 1, Fin (- (1 / 2)), Fin 1, Fin (- (1 / 2))] = Fin 0"
  "pair_corr [Fin 1, Fin 1, Fin (- (1 / 2)), Fin (- (1 / 2))] [Fin 1, Fin 1, Fin (- (1 / 2)), Fin (- (1 / 2))] = Fin 1"
  using pair_corr_finite [of "[1, - (1 / 2), 1, - (1 / 2)]" "[1, 1, - (1 / 2), - (1 / 2)]" "9 / 4"]
    pair_corr_finite [of "[1, 1, - (1 / 2), - (1 / 2)]" "[1, - (1 / 2), 1, - (1 / 2)]" "9 / 4"]
    pair_corr_finite [of "[1, 1, - (1 / 2), - (1 / 2)]" "[1, 1, - (1 / 2), - (1 / 2)]" "9 / 4"]
  by (simp_all add: mirrored_stats uncorrelated_stats sqrt_81_16 clip1_def)

lemma uncorrelated_corr:
  "frame_corr [map Fin [1, - (1 / 2), 1, - (1 / 2)], map Fin [1, 1, - (1 / 2), - (1 / 2)]] = [[Fin 1, Fin 0], [Fin 0, Fin 1]]"
  by (simp add: frame_corr_def mirrored_pairs uncorrelated_pairs)

lemma uncorrelated_ratio: "calculate_diversification_ratio [[Fin 1, Fin 0], [Fin 0, Fin 1]] = PInf"
proof -
  have "np_mean (upper_triangle [[Fin 1, Fin 0], [Fin 0, Fin 1]]) = Fin 0" by code_simp
  then show ?thesis by (simp add: calculate_diversification_ratio_def)
qed

section \<open>Correlation: the clipped quotient is the Pearson correlation\<close>


















section \<open>Correlation with a benchmark: availability and the three measures\<close>

















end
